theory Spec2Isabelle
  imports Main "HOL-Library.Word"
begin

unbundle bit_operations_syntax

section \<open>The Windows platform abstraction layer of snmalloc (src/pal/pal_windows.h)\<close>

text \<open>
  The class \<open>PALWindows\<close> is the only place where the allocator talks to the operating
  system. Every member function is a short sequence of Win32 calls, so the embedding has
  two layers: an instrumented stand-in for the Win32 calls the header makes (it logs each
  call with its arguments, answers from a script, and keeps a byte store with a commit
  bit per address), and on top of it the member functions of the class, statement by
  statement.
\<close>

subsection \<open>Machine types\<close>

type_synonym size_t = "64 word"
type_synonym ptr = "64 word"      \<comment> \<open>\<open>void*\<close>; \<open>nullptr\<close> is 0\<close>
type_synonym handle = "64 word"   \<comment> \<open>\<open>HANDLE\<close>; \<open>NULL\<close> is 0\<close>
type_synonym dword = "32 word"    \<comment> \<open>\<open>DWORD\<close>\<close>
type_synonym BOOL = "32 word"     \<comment> \<open>Win32 \<open>BOOL\<close> is an \<open>int\<close>; zero is false\<close>
type_synonym byte = "8 word"

subsection \<open>Build configuration\<close>

text \<open>
  Everything the preprocessor and the included headers fix for one build. The header
  reads \<open>OS_PAGE_SIZE\<close> from \<open>mem/allocconfig.h\<close> and the two \<open>PalFeatures\<close> enumerators
  from the PAL constants header; neither is part of this file, so they are parameters of
  the build. \<open>NTDDI_WIN10_RS5\<close> is \<open>None\<close> when the SDK headers do not define the macro.
\<close>

record build =
  OS_PAGE_SIZE :: size_t
  NDEBUG :: bool
  USE_SYSTEMATIC_TESTING :: bool
  NTDDI_WIN10_RS5 :: "int option"
  NTDDI_VERSION :: int
  WINVER :: int
  LowMemoryNotification :: "64 word"
  AlignedAllocation :: "64 word"

definition WIN32_WINNT_WIN10 :: int where
  "WIN32_WINNT_WIN10 = 0x0A00"

text \<open>
  Lines 12 to 17: the macro is defined when the SDK knows RS5, the target version is at
  least RS5 and Windows 10, and the build is not a systematic-testing build.
\<close>

definition PLATFORM_HAS_VIRTUALALLOC2 :: "build \<Rightarrow> bool" where
  "PLATFORM_HAS_VIRTUALALLOC2 b =
     (case NTDDI_WIN10_RS5 b of
        None \<Rightarrow> False
      | Some rs5 \<Rightarrow>
          NTDDI_VERSION b \<ge> rs5 \<and> WINVER b \<ge> WIN32_WINNT_WIN10 \<and> \<not> USE_SYSTEMATIC_TESTING b)"

text \<open>Lines 75 to 79: the capability bitmask.\<close>

definition pal_features :: "build \<Rightarrow> 64 word" where
  "pal_features b =
     (if PLATFORM_HAS_VIRTUALALLOC2 b
      then LowMemoryNotification b OR AlignedAllocation b
      else LowMemoryNotification b)"

text \<open>
  Lines 147, 175 and 210: the \<open>#ifdef\<close> / \<open>#elif\<close> / \<open>#else\<close> chain that picks the one
  \<open>reserve\<close> compiled into the class.
\<close>

datatype ReservationStrategy = Simulated | ExtendedAligned | Plain

definition reservation_strategy :: "build \<Rightarrow> ReservationStrategy" where
  "reservation_strategy b =
     (if USE_SYSTEMATIC_TESTING b then Simulated
      else if PLATFORM_HAS_VIRTUALALLOC2 b then ExtendedAligned
      else Plain)"

text \<open>
  The build targets an OS version that has the extended-alignment API: the version part
  of the condition on lines 12 to 14, without the testing switch.
\<close>

definition targets_virtualalloc2 :: "build \<Rightarrow> bool" where
  "targets_virtualalloc2 b =
     (case NTDDI_WIN10_RS5 b of
        None \<Rightarrow> False
      | Some rs5 \<Rightarrow> NTDDI_VERSION b \<ge> rs5 \<and> WINVER b \<ge> WIN32_WINNT_WIN10)"

text \<open>A mask contains a feature when all bits of the feature are set in it.\<close>

definition has_feature :: "64 word \<Rightarrow> 64 word \<Rightarrow> bool" where
  "has_feature features f = (features AND f = f)"

subsection \<open>The instrumented operating system\<close>

text \<open>
  The Win32 functions are not code of the repository. They are modelled by a stand-in
  with three parts.
  \<^item> A log of the calls made, in order, with the arguments the header passes.
  \<^item> A script: \<open>script s k\<close> is the value the \<open>k\<close>-th call of the process returns
    (a pointer, a handle or a \<open>BOOL\<close>; zero means that the call failed), and
    \<open>query_out s k\<close> is what that call stores through its output parameter when it is a
    \<open>QueryMemoryResourceNotification\<close> (\<open>None\<close>: the output is left untouched). Every
    sequence of successes and failures is one script.
  \<^item> A byte store with a commit bit per address. Commit and decommit work on whole
    pages: a successful call affects every page that holds at least one byte of the
    range it was given, a page that becomes committed reads as zero, and committing a
    page that is committed already keeps its contents. The stand-in's page size is the
    build's \<open>OS_PAGE_SIZE\<close>. No region of a process starts at the null address: a
    \<open>VirtualFree\<close> there is refused whatever the script says, and an allocation call
    there lets the OS choose the address. A write to a byte that is not committed is an
    access violation and ends the process.
\<close>

datatype os_call =
    CreateMemoryResourceNotification_call
  | RegisterWaitForSingleObject_call handle
  | QueryMemoryResourceNotification_call handle
  | VirtualFree_call ptr size_t dword
  | VirtualAlloc_call ptr size_t dword dword
  | VirtualAlloc2FromApp_call handle ptr size_t dword dword ptr ptr size_t nat
  | memset_call ptr byte size_t

text \<open>
  The arguments of \<open>VirtualAlloc2FromApp_call\<close> are: process, base address, size,
  allocation type, page protection, then the three fields of the
  \<open>MEM_ADDRESS_REQUIREMENTS\<close> the single extended parameter points to (lowest starting
  address, highest ending address, alignment), and the parameter count.
\<close>

text \<open>
  The process: the static members of the class (lines 27, 28 and 33), the function-local
  static of \<open>systematic_bump_ptr\<close> (line 150), and the stand-in. \<open>invoked\<close> lists the
  clients the low-memory dispatcher has called so far.
\<close>

record state =
  registered_for_notifications :: bool
  lowMemoryObject :: handle
  low_memory_callbacks :: "ptr list"
  bump_ptr :: size_t
  calls :: "os_call list"
  script :: "nat \<Rightarrow> 64 word"
  query_out :: "nat \<Rightarrow> BOOL option"
  committed :: "ptr \<Rightarrow> bool"
  mem :: "ptr \<Rightarrow> byte"
  invoked :: "ptr list"

definition MEM_COMMIT :: dword where "MEM_COMMIT = 0x1000"
definition MEM_RESERVE :: dword where "MEM_RESERVE = 0x2000"
definition MEM_DECOMMIT :: dword where "MEM_DECOMMIT = 0x4000"
definition PAGE_READWRITE :: dword where "PAGE_READWRITE = 0x04"

text \<open>The byte range \<open>[p, p + n)\<close>, in the arithmetic of \<open>size_t\<close>.\<close>

definition in_range :: "ptr \<Rightarrow> size_t \<Rightarrow> ptr \<Rightarrow> bool" where
  "in_range p n a = (a - p < n)"

definition round_up :: "nat \<Rightarrow> nat \<Rightarrow> nat" where
  "round_up ps m = ((m + ps - 1) div ps) * ps"

text \<open>
  The addresses of the pages that hold at least one byte of \<open>[p, p + n)\<close>: from the page
  boundary at or below \<open>p\<close> to the page boundary at or above \<open>p + n\<close>.
\<close>

definition in_pages :: "size_t \<Rightarrow> ptr \<Rightarrow> size_t \<Rightarrow> ptr \<Rightarrow> bool" where
  "in_pages ps p n a =
     (n \<noteq> 0 \<and>
      unat (a - (p - p mod ps)) < round_up (unat ps) (unat (p mod ps) + unat n))"

definition log_call :: "os_call \<Rightarrow> state \<Rightarrow> state" where
  "log_call c s = s\<lparr>calls := calls s @ [c]\<rparr>"

definition next_answer :: "state \<Rightarrow> 64 word" where
  "next_answer s = script s (length (calls s))"

definition commit_pages :: "size_t \<Rightarrow> ptr \<Rightarrow> size_t \<Rightarrow> state \<Rightarrow> state" where
  "commit_pages ps p n s =
     s\<lparr>committed := (\<lambda>a. in_pages ps p n a \<or> committed s a),
       mem := (\<lambda>a. if in_pages ps p n a \<and> \<not> committed s a then 0 else mem s a)\<rparr>"

definition decommit_pages :: "size_t \<Rightarrow> ptr \<Rightarrow> size_t \<Rightarrow> state \<Rightarrow> state" where
  "decommit_pages ps p n s =
     s\<lparr>committed := (\<lambda>a. \<not> in_pages ps p n a \<and> committed s a)\<rparr>"

definition VirtualFree :: "size_t \<Rightarrow> ptr \<Rightarrow> size_t \<Rightarrow> dword \<Rightarrow> state \<Rightarrow> BOOL \<times> state" where
  "VirtualFree ps p n ty s =
     (let r = next_answer s; s1 = log_call (VirtualFree_call p n ty) s
      in if r = 0 \<or> p = 0 then (0, s1)
         else (1, if ty = MEM_DECOMMIT then decommit_pages ps p n s1 else s1))"

definition VirtualAlloc ::
  "size_t \<Rightarrow> ptr \<Rightarrow> size_t \<Rightarrow> dword \<Rightarrow> dword \<Rightarrow> state \<Rightarrow> ptr \<times> state" where
  "VirtualAlloc ps p n ty prot s =
     (let r = next_answer s; s1 = log_call (VirtualAlloc_call p n ty prot) s
      in if r = 0 then (0, s1)
         else (r, if ty AND MEM_COMMIT \<noteq> 0
                  then commit_pages ps (if p = 0 then r else p) n s1 else s1))"

definition VirtualAlloc2FromApp ::
  "size_t \<Rightarrow> handle \<Rightarrow> ptr \<Rightarrow> size_t \<Rightarrow> dword \<Rightarrow> dword \<Rightarrow> ptr \<times> ptr \<times> size_t \<Rightarrow> nat
     \<Rightarrow> state \<Rightarrow> ptr \<times> state" where
  "VirtualAlloc2FromApp ps process p n ty prot reqs cnt s =
     (let r = next_answer s;
          s1 = log_call (VirtualAlloc2FromApp_call process p n ty prot
                  (fst reqs) (fst (snd reqs)) (snd (snd reqs)) cnt) s
      in if r = 0 then (0, s1)
         else (r, if ty AND MEM_COMMIT \<noteq> 0
                  then commit_pages ps (if p = 0 then r else p) n s1 else s1))"

definition CreateMemoryResourceNotification :: "state \<Rightarrow> handle \<times> state" where
  "CreateMemoryResourceNotification s =
     (next_answer s, log_call CreateMemoryResourceNotification_call s)"

definition RegisterWaitForSingleObject :: "handle \<Rightarrow> state \<Rightarrow> BOOL \<times> state" where
  "RegisterWaitForSingleObject h s =
     (if next_answer s = 0 then 0 else 1, log_call (RegisterWaitForSingleObject_call h) s)"

text \<open>
  The query returns its \<open>BOOL\<close> status and what it stored through the output parameter,
  if anything.
\<close>

definition QueryMemoryResourceNotification :: "handle \<Rightarrow> state \<Rightarrow> (BOOL \<times> BOOL option) \<times> state" where
  "QueryMemoryResourceNotification h s =
     ((if next_answer s = 0 then 0 else 1, query_out s (length (calls s))),
      log_call (QueryMemoryResourceNotification_call h) s)"

text \<open>
  How a process ends when it does not return from a call: by a failed \<open>assert\<close> (only in
  a build without \<open>NDEBUG\<close>), through \<open>error\<close>, which prints its message and calls
  \<open>abort\<close>, or by an access violation. The left summand of a result is how the process
  ended and the state it ended in.
\<close>

datatype failure = AssertionFailed | Aborted string | AccessViolation

text \<open>Every byte of \<open>[p, p + n)\<close> is committed, so the process can write to it.\<close>

definition accessible :: "state \<Rightarrow> ptr \<Rightarrow> size_t \<Rightarrow> bool" where
  "accessible s p n = list_all (\<lambda>i. committed s (p + of_nat i)) [0..<unat n]"

text \<open>
  \<open>memset\<close> fills the range, or faults when a byte of the range is not committed. The
  bytes a faulting fill wrote before the fault are not modelled: the process is over.
\<close>

definition memset :: "ptr \<Rightarrow> byte \<Rightarrow> size_t \<Rightarrow> state \<Rightarrow> failure \<times> state + state" where
  "memset p c n s =
     (let s1 = log_call (memset_call p c n) s
      in if accessible s p n
         then Inr (s1\<lparr>mem := (\<lambda>a. if in_range p n a then c else mem s a)\<rparr>)
         else Inl (AccessViolation, s1))"

subsection \<open>What the header takes from the rest of the allocator\<close>

datatype ZeroMem = NoZero | YesZero

text \<open>
  Modelled from the spec: \<open>is_aligned_block\<close> is declared in \<open>ds/address.h\<close>, which is not
  part of the sources at hand. The specification describes it as the alignment-check
  predicate on (address, size) and says what page granularity means: the base address is
  a multiple of the page size and the size in bytes is a multiple of the page size.
\<close>

definition is_aligned_block :: "size_t \<Rightarrow> ptr \<Rightarrow> size_t \<Rightarrow> bool" where
  "is_aligned_block alignment p n = (p mod alignment = 0 \<and> n mod alignment = 0)"

text \<open>
  Modelled from the spec: \<open>PalNotifier\<close> is declared with the PAL constants, outside this
  file. The specification says that registering appends the client to the fan-out list
  and that a delivery invokes every registered client in list order.
\<close>

definition register_notification :: "ptr \<Rightarrow> state \<Rightarrow> state" where
  "register_notification callback s =
     s\<lparr>low_memory_callbacks := low_memory_callbacks s @ [callback]\<rparr>"

definition notify_all :: "state \<Rightarrow> state" where
  "notify_all s = s\<lparr>invoked := invoked s @ low_memory_callbacks s\<rparr>"

subsection \<open>Failure\<close>

text \<open>\<open>assert\<close> checks its condition only in a build without \<open>NDEBUG\<close>.\<close>

definition assert_that :: "build \<Rightarrow> bool \<Rightarrow> state \<Rightarrow> failure \<times> state + unit" where
  "assert_that b c s = (if NDEBUG b \<or> c then Inr () else Inl (AssertionFailed, s))"

text \<open>Lines 103 to 108.\<close>

definition error :: "string \<Rightarrow> state \<Rightarrow> failure \<times> state + 'a" where
  "error str s = Inl (Aborted str, s)"

subsection \<open>Low-memory notification\<close>

text \<open>Lines 39 to 42.\<close>

definition low_memory :: "state \<Rightarrow> state" where
  "low_memory s = notify_all s"

text \<open>
  Lines 45 to 69, the constructor. \<open>exchange(true)\<close> stores true and returns the old
  value in one atomic step.
\<close>

definition exchange_registered :: "bool \<Rightarrow> state \<Rightarrow> bool \<times> state" where
  "exchange_registered v s =
     (registered_for_notifications s, s\<lparr>registered_for_notifications := v\<rparr>)"

definition PALWindows :: "state \<Rightarrow> state" where
  "PALWindows s =
     (case exchange_registered True s of
        (old, s1) \<Rightarrow>
          if \<not> old then
            (case CreateMemoryResourceNotification s1 of
               (h, s2) \<Rightarrow>
                 let s3 = s2\<lparr>lowMemoryObject := h\<rparr>
                 in snd (RegisterWaitForSingleObject (lowMemoryObject s3) s3))
          else s1)"

text \<open>
  Lines 85 to 90. \<open>result\<close> is declared without an initialiser; \<open>uninit\<close> is whatever
  the stack slot holds when the function is entered. The status the query returns is
  dropped.
\<close>

definition expensive_low_memory_check :: "BOOL \<Rightarrow> state \<Rightarrow> bool \<times> state" where
  "expensive_low_memory_check uninit s =
     (case QueryMemoryResourceNotification (lowMemoryObject s) s of
        ((status, out), s1) \<Rightarrow>
          let result = (case out of None \<Rightarrow> uninit | Some v \<Rightarrow> v)
          in (result \<noteq> 0, s1))"

text \<open>Lines 97 to 101.\<close>

definition register_for_low_memory_callback :: "ptr \<Rightarrow> state \<Rightarrow> state" where
  "register_for_low_memory_callback callback s = register_notification callback s"

subsection \<open>Commit, decommit and zeroing\<close>

text \<open>Lines 111 to 119.\<close>

definition notify_not_using ::
  "build \<Rightarrow> ptr \<Rightarrow> size_t \<Rightarrow> state \<Rightarrow> failure \<times> state + state" where
  "notify_not_using b p n s =
     (case assert_that b (is_aligned_block (OS_PAGE_SIZE b) p n) s of
        Inl e \<Rightarrow> Inl e
      | Inr _ \<Rightarrow>
          (case VirtualFree (OS_PAGE_SIZE b) p n MEM_DECOMMIT s of
             (ok, s1) \<Rightarrow> if ok = 0 then error ''VirtualFree failed'' s1 else Inr s1))"

text \<open>Lines 122 to 131.\<close>

definition notify_using ::
  "build \<Rightarrow> ZeroMem \<Rightarrow> ptr \<Rightarrow> size_t \<Rightarrow> state \<Rightarrow> failure \<times> state + state" where
  "notify_using b zero_mem p n s =
     (case assert_that b (is_aligned_block (OS_PAGE_SIZE b) p n \<or> zero_mem = NoZero) s of
        Inl e \<Rightarrow> Inl e
      | Inr _ \<Rightarrow>
          (case VirtualAlloc (OS_PAGE_SIZE b) p n MEM_COMMIT PAGE_READWRITE s of
             (r, s1) \<Rightarrow> if r = 0 then error ''out of memory'' s1 else Inr s1))"

text \<open>Lines 134 to 145.\<close>

definition zero :: "build \<Rightarrow> bool \<Rightarrow> ptr \<Rightarrow> size_t \<Rightarrow> state \<Rightarrow> failure \<times> state + state" where
  "zero b page_aligned p n s =
     (if page_aligned \<or> is_aligned_block (OS_PAGE_SIZE b) p n then
        (case assert_that b (is_aligned_block (OS_PAGE_SIZE b) p n) s of
           Inl e \<Rightarrow> Inl e
         | Inr _ \<Rightarrow>
             (case notify_not_using b p n s of
                Inl e \<Rightarrow> Inl e
              | Inr s1 \<Rightarrow> notify_using b YesZero p n s1))
      else memset p 0 n s)"

text \<open>
  What the specification says \<open>zero\<close> does to the bytes of the process: zero over
  exactly \<open>[p, p + n)\<close>, every other byte as before.
\<close>

definition zero_spec :: "ptr \<Rightarrow> size_t \<Rightarrow> (ptr \<Rightarrow> byte) \<Rightarrow> ptr \<Rightarrow> byte" where
  "zero_spec p n m = (\<lambda>a. if in_range p n a then 0 else m a)"

subsection \<open>Reserving address space\<close>

definition reserve_flags :: "bool \<Rightarrow> dword" where
  "reserve_flags is_committed = (if is_committed then MEM_RESERVE OR MEM_COMMIT else MEM_RESERVE)"

text \<open>
  Lines 164 to 171, the \<open>do\<close> ... \<open>while\<close> loop of the systematic-testing build. One
  unfolding is one pass through the body, entered with the current value of \<open>retries\<close>.
\<close>

function reserve_loop :: "build \<Rightarrow> size_t \<Rightarrow> dword \<Rightarrow> size_t \<Rightarrow> state \<Rightarrow> ptr \<times> state" where
  "reserve_loop b n flags retries s =
     (case VirtualAlloc (OS_PAGE_SIZE b) (bump_ptr s) n flags PAGE_READWRITE s of
        (p, s1) \<Rightarrow>
          let s2 = s1\<lparr>bump_ptr := bump_ptr s1 + n\<rparr>;
              retries' = retries - 1
          in if p = 0 \<and> retries' > 0 then reserve_loop b n flags retries' s2 else (p, s2))"
  by pat_completeness auto
termination
  apply (relation "measure (\<lambda>(b, n, flags, retries, s). unat (retries - 1))")
   apply simp
  apply (clarsimp simp: word_greater_zero_iff)
  subgoal for b n flags retries s y
    using unat_minus_one [of "retries - 1"] by (simp add: algebra_simps unat_gt_0)
  done

declare reserve_loop.simps [simp del]

text \<open>Lines 153 to 174.\<close>

definition reserve_systematic ::
  "build \<Rightarrow> bool \<Rightarrow> size_t \<Rightarrow> state \<Rightarrow> failure \<times> state + ptr \<times> state" where
  "reserve_systematic b is_committed n s =
     Inr (reserve_loop b n (reserve_flags is_committed) 1000 s)"

text \<open>Lines 176 to 209.\<close>

definition min_align :: size_t where
  "min_align = 64 * 1024"

definition reserve_virtualalloc2 ::
  "build \<Rightarrow> bool \<Rightarrow> size_t \<Rightarrow> size_t \<Rightarrow> state \<Rightarrow> failure \<times> state + ptr \<times> state" where
  "reserve_virtualalloc2 b is_committed n align s =
     (let align' = (if align < min_align then min_align else align);
          addressReqs = (0, 0, align')
      in case VirtualAlloc2FromApp (OS_PAGE_SIZE b) 0 0 n (reserve_flags is_committed)
                PAGE_READWRITE addressReqs 1 s of
           (ret, s1) \<Rightarrow>
             if ret = 0 then error (''Failed to allocate memory'' @ [CHR 0x0A]) s1
             else Inr (ret, s1))"

text \<open>Lines 211 to 225.\<close>

definition reserve_plain ::
  "build \<Rightarrow> bool \<Rightarrow> size_t \<Rightarrow> state \<Rightarrow> failure \<times> state + ptr \<times> state" where
  "reserve_plain b is_committed n s =
     (case VirtualAlloc (OS_PAGE_SIZE b) 0 n (reserve_flags is_committed) PAGE_READWRITE s of
        (ret, s1) \<Rightarrow>
          if ret = 0 then error (''Failed to allocate memory'' @ [CHR 0x0A]) s1
          else Inr (ret, s1))"

text \<open>The state in which a call left the process, whether it returned or not.\<close>

definition final_state :: "failure \<times> state + ptr \<times> state \<Rightarrow> state" where
  "final_state r = (case r of Inl (f, s) \<Rightarrow> s | Inr (p, s) \<Rightarrow> s)"

definition end_state :: "failure \<times> state + state \<Rightarrow> state" where
  "end_state r = (case r of Inl (f, s) \<Rightarrow> s | Inr s \<Rightarrow> s)"

text \<open>A call ended the process by a failed \<open>assert\<close>.\<close>

definition asserts :: "failure \<times> state + 'a \<Rightarrow> bool" where
  "asserts r = (case r of Inl (f, s) \<Rightarrow> f = AssertionFailed | Inr x \<Rightarrow> False)"

subsection \<open>Constructions that run concurrently\<close>

text \<open>
  The constructor as three atomic steps, so that several constructions can interleave:
  the exchange on the flag (line 56), \<open>CreateMemoryResourceNotification\<close> with the store
  to \<open>lowMemoryObject\<close> (lines 58 and 59), and \<open>RegisterWaitForSingleObject\<close> (lines 61
  to 67). The exchange uses the default memory order, sequentially consistent.
\<close>

datatype ctor_pc = at_exchange | at_create | at_register | returned

fun ctor_step :: "ctor_pc \<Rightarrow> state \<Rightarrow> ctor_pc \<times> state" where
  "ctor_step at_exchange s =
     (case exchange_registered True s of
        (old, s1) \<Rightarrow> (if \<not> old then at_create else returned, s1))"
| "ctor_step at_create s =
     (case CreateMemoryResourceNotification s of
        (h, s1) \<Rightarrow> (at_register, s1\<lparr>lowMemoryObject := h\<rparr>))"
| "ctor_step at_register s =
     (returned, snd (RegisterWaitForSingleObject (lowMemoryObject s) s))"
| "ctor_step returned s = (returned, s)"

text \<open>
  A schedule names, step by step, the construction that moves next; a name outside the
  list of constructions moves nobody.
\<close>

definition thread_step :: "nat \<Rightarrow> ctor_pc list \<times> state \<Rightarrow> ctor_pc list \<times> state" where
  "thread_step t c =
     (case c of (pcs, s) \<Rightarrow>
        if t < length pcs
        then (case ctor_step (pcs ! t) s of (pc', s') \<Rightarrow> (pcs[t := pc'], s'))
        else (pcs, s))"

fun run_schedule :: "nat list \<Rightarrow> ctor_pc list \<times> state \<Rightarrow> ctor_pc list \<times> state" where
  "run_schedule [] c = c"
| "run_schedule (t # ts) c = run_schedule ts (thread_step t c)"

text \<open>The OS subscription calls in a log.\<close>

definition creations :: "os_call list \<Rightarrow> nat" where
  "creations cs = length (filter (\<lambda>c. c = CreateMemoryResourceNotification_call) cs)"

fun is_register_wait :: "os_call \<Rightarrow> bool" where
  "is_register_wait (RegisterWaitForSingleObject_call h) = True"
| "is_register_wait _ = False"

definition wait_bindings :: "os_call list \<Rightarrow> nat" where
  "wait_bindings cs = length (filter is_register_wait cs)"

text \<open>
  \<open>N\<close> constructions, all before their first step, run under a schedule.
\<close>

definition concurrent_constructions :: "nat \<Rightarrow> nat list \<Rightarrow> state \<Rightarrow> ctor_pc list \<times> state" where
  "concurrent_constructions N sched s = run_schedule sched (replicate N at_exchange, s)"

text \<open>
  What holds in every configuration the constructions can reach from a process with
  \<open>c0\<close> creation calls and \<open>w0\<close> wait bindings in its log and the flag unset: a
  construction between its exchange and its OS calls stands for a call still to come.
\<close>

definition subscription_inv :: "nat \<Rightarrow> nat \<Rightarrow> ctor_pc list \<times> state \<Rightarrow> bool" where
  "subscription_inv c0 w0 cfg =
     (case cfg of (pcs, s) \<Rightarrow>
        let r = (if registered_for_notifications s then 1 else 0) in
        creations (calls s) + count_list pcs at_create = c0 + r \<and>
        wait_bindings (calls s) + count_list pcs at_create + count_list pcs at_register = w0 + r \<and>
        (registered_for_notifications s \<or> count_list pcs at_exchange = length pcs))"

text \<open>A step of the process that touches neither the flag nor the subscription calls.\<close>

definition keeps_subscription :: "state \<Rightarrow> state \<Rightarrow> bool" where
  "keeps_subscription s s' =
     (registered_for_notifications s' = registered_for_notifications s \<and>
      creations (calls s') = creations (calls s) \<and>
      wait_bindings (calls s') = wait_bindings (calls s))"

subsection \<open>The life of a process\<close>

text \<open>
  The member functions a client can call, with their arguments. \<open>Check\<close> carries the
  content of the uninitialised local of \<open>expensive_low_memory_check\<close>; \<open>Deliver\<close> is the
  OS invoking the registered callback \<open>low_memory\<close>; the alignment of \<open>Reserve\<close> is used
  by the VirtualAlloc2 variant only, the other two variants take no alignment.
\<close>

datatype operation =
    Construct
  | Check BOOL
  | Register ptr
  | Deliver
  | NotUsing ptr size_t
  | Using ZeroMem ptr size_t
  | Zero bool ptr size_t
  | Reserve bool size_t size_t

definition drop_result :: "failure \<times> state + 'a \<times> state \<Rightarrow> failure \<times> state + state" where
  "drop_result r = (case r of Inl e \<Rightarrow> Inl e | Inr (x, s) \<Rightarrow> Inr s)"

fun perform :: "build \<Rightarrow> operation \<Rightarrow> state \<Rightarrow> failure \<times> state + state" where
  "perform b Construct s = Inr (PALWindows s)"
| "perform b (Check uninit) s = Inr (snd (expensive_low_memory_check uninit s))"
| "perform b (Register callback) s = Inr (register_for_low_memory_callback callback s)"
| "perform b Deliver s = Inr (low_memory s)"
| "perform b (NotUsing p n) s = notify_not_using b p n s"
| "perform b (Using zero_mem p n) s = notify_using b zero_mem p n s"
| "perform b (Zero page_aligned p n) s = zero b page_aligned p n s"
| "perform b (Reserve is_committed n align) s =
     drop_result
       (case reservation_strategy b of
          Simulated \<Rightarrow> reserve_systematic b is_committed n s
        | ExtendedAligned \<Rightarrow> reserve_virtualalloc2 b is_committed n align s
        | Plain \<Rightarrow> reserve_plain b is_committed n s)"

text \<open>A sequence of calls; the process is over at the first call that ends it.\<close>

fun run_ops :: "build \<Rightarrow> operation list \<Rightarrow> state \<Rightarrow> failure \<times> state + state" where
  "run_ops b [] s = Inr s"
| "run_ops b (op # ops) s =
     (case perform b op s of Inl e \<Rightarrow> Inl e | Inr s' \<Rightarrow> run_ops b ops s')"

text \<open>
  The calls of \<open>k\<close> passes through the loop of the systematic-testing \<open>reserve\<close> that
  start with the bump pointer at \<open>cursor\<close>: pass \<open>i\<close> asks for \<open>n\<close> bytes at
  \<open>cursor + i * n\<close>.
\<close>

definition attempt_calls :: "ptr \<Rightarrow> size_t \<Rightarrow> dword \<Rightarrow> nat \<Rightarrow> os_call list" where
  "attempt_calls cursor n flags k =
     map (\<lambda>i. VirtualAlloc_call (cursor + of_nat i * n) n flags PAGE_READWRITE) [0..<k]"

subsection \<open>Example builds and processes\<close>

definition release_build :: build where
  "release_build =
     \<lparr>OS_PAGE_SIZE = 0x1000, NDEBUG = True, USE_SYSTEMATIC_TESTING = False,
      NTDDI_WIN10_RS5 = Some 0x0A000006, NTDDI_VERSION = 0x0A000006, WINVER = 0x0A00,
      LowMemoryNotification = 1, AlignedAllocation = 2\<rparr>"

definition debug_build :: build where
  "debug_build = release_build\<lparr>NDEBUG := False\<rparr>"

definition testing_build :: build where
  "testing_build = release_build\<lparr>USE_SYSTEMATIC_TESTING := True\<rparr>"

definition legacy_build :: build where
  "legacy_build = release_build\<lparr>NTDDI_WIN10_RS5 := None, NTDDI_VERSION := 0x06010000, WINVER := 0x0601\<rparr>"

text \<open>
  A process at its start: the statics zero-initialised, the bump pointer at its
  initialiser (line 150), nothing logged, every byte committed and holding \<open>0xAA\<close>. The
  argument is the script of the stand-in.
\<close>

definition process_start :: "(nat \<Rightarrow> 64 word) \<Rightarrow> state" where
  "process_start answers =
     \<lparr>registered_for_notifications = False, lowMemoryObject = 0,
      low_memory_callbacks = [], bump_ptr = 0x400000000000, calls = [],
      script = answers, query_out = (\<lambda>k. None),
      committed = (\<lambda>a. True), mem = (\<lambda>a. 0xAA), invoked = []\<rparr>"

definition always_succeeds :: "nat \<Rightarrow> 64 word" where
  "always_succeeds k = 0x10000"

definition always_fails :: "nat \<Rightarrow> 64 word" where
  "always_fails k = 0"

definition third_time_lucky :: "nat \<Rightarrow> 64 word" where
  "third_time_lucky k = (if k < 2 then 0 else 0x400000020000)"

section \<open>Capability flags\<close>

lemma has_feature_or_right:
  "has_feature (l OR f) f"
  by (auto simp: has_feature_def bit_eq_iff bit_and_iff bit_or_iff)

lemma has_feature_disjoint:
  assumes "f \<noteq> 0" and "l AND f = 0"
  shows "\<not> has_feature l f"
  using assms by (auto simp: has_feature_def)

lemma virtualalloc2_iff_targets:
  "PLATFORM_HAS_VIRTUALALLOC2 b \<longleftrightarrow> targets_virtualalloc2 b \<and> \<not> USE_SYSTEMATIC_TESTING b"
  by (auto simp: PLATFORM_HAS_VIRTUALALLOC2_def targets_virtualalloc2_def split: option.splits)

lemma strategy_iff_virtualalloc2:
  "reservation_strategy b = ExtendedAligned \<longleftrightarrow> PLATFORM_HAS_VIRTUALALLOC2 b"
  by (auto simp: reservation_strategy_def PLATFORM_HAS_VIRTUALALLOC2_def split: option.splits)

text \<open>
  C7. The capability mask depends on the build only. It always contains the
  low-memory-notification feature. Provided the two features are distinct bits (the
  explicit-alignment feature is not empty and shares no bit with the other one), the
  mask contains the explicit-alignment feature exactly when the build targets an OS
  version with the extended-alignment API and is not a systematic-testing build, and
  that is exactly when the reservation strategy compiled in is the extended-aligned one.
\<close>

theorem pal_features_capabilities:
  assumes "AlignedAllocation b \<noteq> 0"
    and "LowMemoryNotification b AND AlignedAllocation b = 0"
  shows "has_feature (pal_features b) (LowMemoryNotification b) \<and>
         (has_feature (pal_features b) (AlignedAllocation b)
            \<longleftrightarrow> targets_virtualalloc2 b \<and> \<not> USE_SYSTEMATIC_TESTING b) \<and>
         (has_feature (pal_features b) (AlignedAllocation b)
            \<longleftrightarrow> reservation_strategy b = ExtendedAligned)"
proof -
  have low: "has_feature (pal_features b) (LowMemoryNotification b)"
    by (auto simp: pal_features_def has_feature_def bit_eq_iff bit_and_iff bit_or_iff)
  have aligned: "has_feature (pal_features b) (AlignedAllocation b)
                   \<longleftrightarrow> PLATFORM_HAS_VIRTUALALLOC2 b"
    using assms has_feature_disjoint [of "AlignedAllocation b" "LowMemoryNotification b"]
    by (simp add: pal_features_def has_feature_or_right)
  show ?thesis
    using low aligned virtualalloc2_iff_targets [of b] strategy_iff_virtualalloc2 [of b]
    by simp
qed

theorem pal_features_capabilities_witness:
  "has_feature (pal_features release_build) 1 \<and>
   has_feature (pal_features release_build) 2 \<and>
   reservation_strategy release_build = ExtendedAligned \<and>
   \<not> has_feature (pal_features testing_build) 2 \<and>
   reservation_strategy testing_build = Simulated \<and>
   \<not> has_feature (pal_features legacy_build) 2 \<and>
   reservation_strategy legacy_build = Plain"
  using pal_features_capabilities [of release_build]
    pal_features_capabilities [of testing_build]
    pal_features_capabilities [of legacy_build]
  by (simp add: release_build_def testing_build_def legacy_build_def
      reservation_strategy_def PLATFORM_HAS_VIRTUALALLOC2_def targets_virtualalloc2_def
      WIN32_WINNT_WIN10_def)

section \<open>Reserving address space\<close>

subsection \<open>What the stand-in's allocation call changes\<close>

lemma VirtualAlloc_calls:
  "calls (snd (VirtualAlloc ps p n ty prot s)) = calls s @ [VirtualAlloc_call p n ty prot]"
  by (simp add: VirtualAlloc_def log_call_def commit_pages_def Let_def)

lemma VirtualAlloc_result:
  "fst (VirtualAlloc ps p n ty prot s) = script s (length (calls s))"
  by (simp add: VirtualAlloc_def next_answer_def Let_def)

lemma VirtualAlloc_frame:
  "script (snd (VirtualAlloc ps p n ty prot s)) = script s"
  "bump_ptr (snd (VirtualAlloc ps p n ty prot s)) = bump_ptr s"
  "registered_for_notifications (snd (VirtualAlloc ps p n ty prot s)) = registered_for_notifications s"
  by (simp_all add: VirtualAlloc_def log_call_def commit_pages_def Let_def)

lemma attempt_calls_Suc_front:
  "attempt_calls cursor n flags (Suc k) =
     VirtualAlloc_call cursor n flags PAGE_READWRITE # attempt_calls (cursor + n) n flags k"
  by (simp add: attempt_calls_def upt_conv_Cons map_Suc_upt [symmetric] algebra_simps del: upt_Suc)

lemma reserve_loop_attempts:
  "retries \<noteq> 0 \<Longrightarrow>
   \<exists>k. 1 \<le> k \<and> k \<le> unat retries \<and>
       calls (snd (reserve_loop b n flags retries s)) = calls s @ attempt_calls (bump_ptr s) n flags k \<and>
       bump_ptr (snd (reserve_loop b n flags retries s)) = bump_ptr s + of_nat k * n \<and>
       script (snd (reserve_loop b n flags retries s)) = script s \<and>
       fst (reserve_loop b n flags retries s) = script s (length (calls s) + k - 1) \<and>
       (\<forall>i < k - 1. script s (length (calls s) + i) = 0) \<and>
       (fst (reserve_loop b n flags retries s) = 0 \<longrightarrow> k = unat retries)"
proof (induction b n flags retries s rule: reserve_loop.induct)
  case (1 b n flags retries s)
  let ?va = "VirtualAlloc (OS_PAGE_SIZE b) (bump_ptr s) n flags PAGE_READWRITE s"
  let ?s2 = "(snd ?va)\<lparr>bump_ptr := bump_ptr (snd ?va) + n\<rparr>"
  show ?case
  proof (cases "fst ?va = 0 \<and> retries - 1 > 0")
    case False
    then have eq: "reserve_loop b n flags retries s = (fst ?va, ?s2)"
      by (subst reserve_loop.simps) (auto simp: Let_def split: prod.splits)
    have "retries = 1" if "fst ?va = 0"
      using that False by (simp add: word_greater_zero_iff)
    moreover have "Suc 0 \<le> unat retries"
      using "1.prems" unat_gt_0 [of retries] by simp
    ultimately show ?thesis
      apply (intro exI [of _ 1])
      apply (simp add: eq VirtualAlloc_calls VirtualAlloc_result VirtualAlloc_frame attempt_calls_def)
      done
  next
    case True
    then have eq: "reserve_loop b n flags retries s = reserve_loop b n flags (retries - 1) ?s2"
      by (subst reserve_loop.simps) (auto simp: Let_def split: prod.splits)
    from True have r1: "retries - 1 \<noteq> 0" by (simp add: word_greater_zero_iff)
    have "\<exists>k. 1 \<le> k \<and> k \<le> unat (retries - 1) \<and>
       calls (snd (reserve_loop b n flags (retries - 1) ?s2)) = calls ?s2 @ attempt_calls (bump_ptr ?s2) n flags k \<and>
       bump_ptr (snd (reserve_loop b n flags (retries - 1) ?s2)) = bump_ptr ?s2 + of_nat k * n \<and>
       script (snd (reserve_loop b n flags (retries - 1) ?s2)) = script ?s2 \<and>
       fst (reserve_loop b n flags (retries - 1) ?s2) = script ?s2 (length (calls ?s2) + k - 1) \<and>
       (\<forall>i < k - 1. script ?s2 (length (calls ?s2) + i) = 0) \<and>
       (fst (reserve_loop b n flags (retries - 1) ?s2) = 0 \<longrightarrow> k = unat (retries - 1))"
      using True r1 "1.IH" [OF prod.collapse refl refl] by simp
    then obtain k where k: "1 \<le> k" "k \<le> unat (retries - 1)"
       "calls (snd (reserve_loop b n flags (retries - 1) ?s2)) = calls ?s2 @ attempt_calls (bump_ptr ?s2) n flags k"
       "bump_ptr (snd (reserve_loop b n flags (retries - 1) ?s2)) = bump_ptr ?s2 + of_nat k * n"
       "script (snd (reserve_loop b n flags (retries - 1) ?s2)) = script ?s2"
       "fst (reserve_loop b n flags (retries - 1) ?s2) = script ?s2 (length (calls ?s2) + k - 1)"
       "\<forall>i < k - 1. script ?s2 (length (calls ?s2) + i) = 0"
       "fst (reserve_loop b n flags (retries - 1) ?s2) = 0 \<longrightarrow> k = unat (retries - 1)"
      by blast
    have u: "unat (retries - 1) = unat retries - 1"
      using "1.prems" by (simp add: unat_minus_one)
    have pos: "0 < unat retries" using "1.prems" by (simp add: unat_gt_0)
    have first: "script s (length (calls s)) = 0"
      using True by (simp add: VirtualAlloc_result)
    have zeros: "\<forall>i < Suc k - 1. script s (length (calls s) + i) = 0"
    proof (intro allI impI)
      fix i assume "i < Suc k - 1"
      show "script s (length (calls s) + i) = 0"
      proof (cases i)
        case 0 then show ?thesis using first by simp
      next
        case (Suc j)
        with \<open>i < Suc k - 1\<close> have "j < k - 1" by simp
        with k(7) have "script ?s2 (length (calls ?s2) + j) = 0" by blast
        then show ?thesis using Suc by (simp add: VirtualAlloc_calls VirtualAlloc_frame)
      qed
    qed
    show ?thesis
      apply (intro exI [of _ "Suc k"])
      apply (intro conjI)
      subgoal by simp
      subgoal using k(2) u pos by simp
      subgoal using k(3) by (simp add: eq VirtualAlloc_calls VirtualAlloc_frame attempt_calls_Suc_front)
      subgoal using k(4) by (simp add: eq VirtualAlloc_frame algebra_simps)
      subgoal using k(5) by (simp add: eq VirtualAlloc_frame)
      subgoal using k(6) k(1) by (simp add: eq VirtualAlloc_calls VirtualAlloc_frame)
      subgoal using zeros .
      subgoal using k(8) k(1) u pos by (simp add: eq)
      done
  qed
qed


subsection \<open>The three strategies\<close>

lemma reserve_systematic_run:
  "\<exists>k p s'. reserve_systematic b c n s = Inr (p, s') \<and> 1 \<le> k \<and> k \<le> 1000 \<and>
      calls s' = calls s @ attempt_calls (bump_ptr s) n (reserve_flags c) k \<and>
      bump_ptr s' = bump_ptr s + of_nat k * n \<and>
      p = script s (length (calls s) + k - 1) \<and>
      (\<forall>i < k - 1. script s (length (calls s) + i) = 0) \<and>
      (p = 0 \<longrightarrow> k = 1000 \<and> bump_ptr s' = bump_ptr s + 1000 * n)"
proof -
  let ?r = "reserve_loop b n (reserve_flags c) 1000 s"
  have "(1000 :: size_t) \<noteq> 0" by simp
  from reserve_loop_attempts [OF this, of b n "reserve_flags c" s]
  obtain k where k: "1 \<le> k" "k \<le> unat (1000 :: size_t)"
    "calls (snd ?r) = calls s @ attempt_calls (bump_ptr s) n (reserve_flags c) k"
    "bump_ptr (snd ?r) = bump_ptr s + of_nat k * n"
    "fst ?r = script s (length (calls s) + k - 1)"
    "\<forall>i < k - 1. script s (length (calls s) + i) = 0"
    "fst ?r = 0 \<longrightarrow> k = unat (1000 :: size_t)"
    by blast
  have eq: "reserve_systematic b c n s = Inr (fst ?r, snd ?r)"
    by (simp add: reserve_systematic_def)
  have k1000: "k \<le> 1000" using k(2) by simp
  have ex: "fst ?r = 0 \<longrightarrow> k = 1000 \<and> bump_ptr (snd ?r) = bump_ptr s + 1000 * n"
  proof
    assume "fst ?r = 0"
    with k(7) have "k = 1000" by simp
    with k(4) show "k = 1000 \<and> bump_ptr (snd ?r) = bump_ptr s + 1000 * n" by simp
  qed
  show ?thesis
    apply (rule exI [of _ k], rule exI [of _ "fst ?r"], rule exI [of _ "snd ?r"])
    using eq k(1) k1000 k(3) k(4) k(5) k(6) ex by blast
qed


text \<open>
  C5. Every call of the systematic-testing \<open>reserve\<close> returns, after \<open>k\<close> attempts with
  \<open>1 \<le> k \<le> 1000\<close>. Attempt \<open>i\<close> (counted from 0) is one \<open>VirtualAlloc\<close> at the bump
  pointer of that moment, \<open>cursor + i * size\<close>; the pointer has advanced by \<open>size\<close> after
  every attempt, the failed ones and the last one alike, so it ends at
  \<open>cursor + k * size\<close>. All attempts before the last failed, the result is the answer
  to the last, and the result is null only when all 1000 attempts were made; then the
  pointer has advanced by \<open>1000 * size\<close>. The sums are those of \<open>size_t\<close>.
\<close>

theorem reserve_systematic_attempts:
  "\<exists>k p s'. reserve_systematic b c n s = Inr (p, s') \<and> 1 \<le> k \<and> k \<le> 1000 \<and>
      calls s' = calls s @ attempt_calls (bump_ptr s) n (reserve_flags c) k \<and>
      bump_ptr s' = bump_ptr s + of_nat k * n \<and>
      p = script s (length (calls s) + k - 1) \<and>
      (\<forall>i < k - 1. script s (length (calls s) + i) = 0) \<and>
      (p = 0 \<longrightarrow> k = 1000 \<and> bump_ptr s' = bump_ptr s + 1000 * n)"
  by (rule reserve_systematic_run)

theorem reserve_systematic_attempts_witness:
  "fst (projr (reserve_systematic testing_build True 0x10000 (process_start always_fails))) = 0 \<and>
   bump_ptr (snd (projr (reserve_systematic testing_build True 0x10000 (process_start always_fails))))
     = 0x400003E80000 \<and>
   length (calls (snd (projr (reserve_systematic testing_build True 0x10000
     (process_start always_fails))))) = 1000 \<and>
   fst (projr (reserve_systematic testing_build False 0x10000 (process_start third_time_lucky)))
     = 0x400000020000 \<and>
   bump_ptr (snd (projr (reserve_systematic testing_build False 0x10000
     (process_start third_time_lucky)))) = 0x400000030000 \<and>
   calls (snd (projr (reserve_systematic testing_build False 0x10000
     (process_start third_time_lucky))))
     = [VirtualAlloc_call 0x400000000000 0x10000 0x2000 4,
        VirtualAlloc_call 0x400000010000 0x10000 0x2000 4,
        VirtualAlloc_call 0x400000020000 0x10000 0x2000 4]"
proof -
  let ?s = "process_start always_fails"
  obtain k p s' where r: "reserve_systematic testing_build True 0x10000 ?s = Inr (p, s')"
    and c: "calls s' = calls ?s @ attempt_calls (bump_ptr ?s) 0x10000 (reserve_flags True) k"
    and a: "p = script ?s (length (calls ?s) + k - 1)"
    and e: "p = 0 \<longrightarrow> k = 1000 \<and> bump_ptr s' = bump_ptr ?s + 1000 * 0x10000"
    using reserve_systematic_attempts [of testing_build True "0x10000" ?s] by blast
  have p0: "p = 0"
    using a by (simp add: process_start_def always_fails_def)
  with e have k: "k = 1000" and bp: "bump_ptr s' = bump_ptr ?s + 1000 * 0x10000"
    by simp_all
  have "bump_ptr s' = 0x400003E80000"
    using bp by (simp add: process_start_def)
  moreover have "length (calls s') = 1000"
    using c k by (simp add: attempt_calls_def process_start_def)
  moreover have
    "fst (projr (reserve_systematic testing_build False 0x10000 (process_start third_time_lucky)))
       = 0x400000020000 \<and>
     bump_ptr (snd (projr (reserve_systematic testing_build False 0x10000
       (process_start third_time_lucky)))) = 0x400000030000 \<and>
     calls (snd (projr (reserve_systematic testing_build False 0x10000
       (process_start third_time_lucky))))
       = [VirtualAlloc_call 0x400000000000 0x10000 0x2000 4,
          VirtualAlloc_call 0x400000010000 0x10000 0x2000 4,
          VirtualAlloc_call 0x400000020000 0x10000 0x2000 4]"
    by (simp add: reserve_systematic_def reserve_loop.simps VirtualAlloc_def process_start_def
        third_time_lucky_def testing_build_def release_build_def next_answer_def log_call_def
        reserve_flags_def MEM_RESERVE_def MEM_COMMIT_def PAGE_READWRITE_def Let_def)
  ultimately show ?thesis
    using r p0 by simp
qed


lemma VirtualAlloc2FromApp_calls:
  "calls (snd (VirtualAlloc2FromApp ps h p n ty prot reqs cnt s)) =
     calls s @ [VirtualAlloc2FromApp_call h p n ty prot (fst reqs) (fst (snd reqs)) (snd (snd reqs)) cnt]"
  by (simp add: VirtualAlloc2FromApp_def log_call_def commit_pages_def Let_def)

lemma VirtualAlloc2FromApp_result:
  "fst (VirtualAlloc2FromApp ps h p n ty prot reqs cnt s) = script s (length (calls s))"
  by (simp add: VirtualAlloc2FromApp_def next_answer_def Let_def)

lemma reserve_virtualalloc2_unfold:
  "reserve_virtualalloc2 b c n align s =
     (let va = VirtualAlloc2FromApp (OS_PAGE_SIZE b) 0 0 n (reserve_flags c) PAGE_READWRITE
                 (0, 0, if align < min_align then min_align else align) 1 s
      in if fst va = 0 then error (''Failed to allocate memory'' @ [CHR 0x0A]) (snd va)
         else Inr va)"
  by (simp add: reserve_virtualalloc2_def Let_def split: prod.splits)

lemma reserve_virtualalloc2_final_state:
  "final_state (reserve_virtualalloc2 b c n align s) =
     snd (VirtualAlloc2FromApp (OS_PAGE_SIZE b) 0 0 n (reserve_flags c) PAGE_READWRITE
            (0, 0, if align < min_align then min_align else align) 1 s)"
  by (simp add: reserve_virtualalloc2_unfold final_state_def error_def Let_def split: prod.splits)

lemma reserve_virtualalloc2_calls:
  "calls (final_state (reserve_virtualalloc2 b c n align s)) =
     calls s @ [VirtualAlloc2FromApp_call 0 0 n (reserve_flags c) PAGE_READWRITE 0 0
                  (if align < min_align then min_align else align) 1]"
  by (simp only: reserve_virtualalloc2_final_state VirtualAlloc2FromApp_calls fst_conv snd_conv)

text \<open>
  C3. With an alignment below 64 KiB the VirtualAlloc2 \<open>reserve\<close> does exactly what it
  does with 64 KiB: the same call, the same outcome. In every case the one OS call it
  makes is \<open>VirtualAlloc2FromApp\<close> with the alignment requirement 64 KiB if the request
  was below that and the requested alignment otherwise.
\<close>

theorem reserve_alignment_floor:
  "(align < 0x10000 \<longrightarrow>
      reserve_virtualalloc2 b c n align s = reserve_virtualalloc2 b c n 0x10000 s) \<and>
   calls (final_state (reserve_virtualalloc2 b c n align s)) =
     calls s @ [VirtualAlloc2FromApp_call 0 0 n (reserve_flags c) PAGE_READWRITE 0 0
                  (if align < 0x10000 then 0x10000 else align) 1]"
proof -
  have m: "min_align = 0x10000" by (simp add: min_align_def)
  have "reserve_virtualalloc2 b c n align s = reserve_virtualalloc2 b c n 0x10000 s"
    if "align < 0x10000"
    using that by (simp add: reserve_virtualalloc2_def m)
  then show ?thesis
    using reserve_virtualalloc2_calls [of b c n align s] by (simp add: m)
qed

theorem reserve_alignment_floor_witness:
  "reserve_virtualalloc2 release_build True 0x200000 0x1000 (process_start always_succeeds)
     = reserve_virtualalloc2 release_build True 0x200000 0x10000 (process_start always_succeeds) \<and>
   calls (final_state (reserve_virtualalloc2 release_build True 0x200000 0x1000
       (process_start always_succeeds)))
     = [VirtualAlloc2FromApp_call 0 0 0x200000 0x3000 4 0 0 0x10000 1] \<and>
   calls (final_state (reserve_virtualalloc2 release_build True 0x200000 0x200000
       (process_start always_succeeds)))
     = [VirtualAlloc2FromApp_call 0 0 0x200000 0x3000 4 0 0 0x200000 1]"
proof -
  let ?s = "process_start always_succeeds"
  note low = reserve_alignment_floor [of "0x1000" release_build True "0x200000" ?s]
  note high = reserve_alignment_floor [of "0x200000" release_build True "0x200000" ?s]
  have same: "reserve_virtualalloc2 release_build True 0x200000 0x1000 ?s
                = reserve_virtualalloc2 release_build True 0x200000 0x10000 ?s"
    using low by simp
  have floor: "calls (final_state (reserve_virtualalloc2 release_build True 0x200000 0x1000 ?s))
                 = [VirtualAlloc2FromApp_call 0 0 0x200000 0x3000 4 0 0 0x10000 1]"
    using conjunct2 [OF low]
    by (simp add: process_start_def reserve_flags_def MEM_RESERVE_def MEM_COMMIT_def
        PAGE_READWRITE_def)
  have through: "calls (final_state (reserve_virtualalloc2 release_build True 0x200000 0x200000 ?s))
                   = [VirtualAlloc2FromApp_call 0 0 0x200000 0x3000 4 0 0 0x200000 1]"
    using conjunct2 [OF high]
    by (simp add: process_start_def reserve_flags_def MEM_RESERVE_def MEM_COMMIT_def
        PAGE_READWRITE_def)
  from same floor through show ?thesis
    by (intro conjI)
qed


lemma reserve_plain_unfold:
  "reserve_plain b c n s =
     (let va = VirtualAlloc (OS_PAGE_SIZE b) 0 n (reserve_flags c) PAGE_READWRITE s
      in if fst va = 0 then error (''Failed to allocate memory'' @ [CHR 0x0A]) (snd va)
         else Inr va)"
  by (simp add: reserve_plain_def Let_def split: prod.splits)

lemma reserve_systematic_null_iff:
  "fst (projr (reserve_systematic b c n s)) = 0 \<longleftrightarrow>
     (\<forall>i < 1000. script s (length (calls s) + i) = 0)"
proof -
  obtain k p s' where r: "reserve_systematic b c n s = Inr (p, s')"
    and k: "1 \<le> k" "k \<le> 1000"
    and a: "p = script s (length (calls s) + k - 1)"
    and z: "\<forall>i < k - 1. script s (length (calls s) + i) = 0"
    and e: "p = 0 \<longrightarrow> k = 1000 \<and> bump_ptr s' = bump_ptr s + 1000 * n"
    using reserve_systematic_run [of b c n s] by blast
  have "p = 0 \<longleftrightarrow> (\<forall>i < 1000. script s (length (calls s) + i) = 0)"
  proof
    assume "p = 0"
    with e have k1000: "k = 1000" by simp
    show "\<forall>i < 1000. script s (length (calls s) + i) = 0"
    proof (intro allI impI)
      fix i :: nat assume "i < 1000"
      show "script s (length (calls s) + i) = 0"
      proof (cases "i < k - 1")
        case True with z show ?thesis by blast
      next
        case False
        with \<open>i < 1000\<close> k1000 have "i = k - 1" by simp
        with a \<open>p = 0\<close> k show ?thesis by (simp add: add.assoc)
      qed
    qed
  next
    assume all: "\<forall>i < 1000. script s (length (calls s) + i) = 0"
    have "k - 1 < 1000" using k by simp
    with all have "script s (length (calls s) + (k - 1)) = 0" by blast
    with a k show "p = 0" by (simp add: add.assoc)
  qed
  with r show ?thesis by simp
qed


lemma reserve_systematic_returns:
  "\<not> isl (reserve_systematic b c n s)"
  by (simp add: reserve_systematic_def)

lemma allocation_outcome:
  assumes "fst va = script s (length (calls s))"
  shows "(case (if fst va = 0 then error m (snd va) else Inr va) of
            Inl (f, s') \<Rightarrow> f = Aborted m \<and> script s (length (calls s)) = 0
          | Inr (p, s') \<Rightarrow> p \<noteq> 0 \<and> p = script s (length (calls s)))"
  using assms by (cases va) (simp add: error_def)

lemma reserve_virtualalloc2_outcome:
  "(case reserve_virtualalloc2 b c n align s of
      Inl (f, s') \<Rightarrow>
        f = Aborted (''Failed to allocate memory'' @ [CHR 0x0A]) \<and> script s (length (calls s)) = 0
    | Inr (p, s') \<Rightarrow> p \<noteq> 0 \<and> p = script s (length (calls s)))"
  unfolding reserve_virtualalloc2_unfold Let_def
  by (rule allocation_outcome) (rule VirtualAlloc2FromApp_result)

lemma reserve_plain_outcome:
  "(case reserve_plain b c n s of
      Inl (f, s') \<Rightarrow>
        f = Aborted (''Failed to allocate memory'' @ [CHR 0x0A]) \<and> script s (length (calls s)) = 0
    | Inr (p, s') \<Rightarrow> p \<noteq> 0 \<and> p = script s (length (calls s)))"
  unfolding reserve_plain_unfold Let_def
  by (rule allocation_outcome) (rule VirtualAlloc_result)

text \<open>
  C4. The systematic-testing \<open>reserve\<close> never ends the process: it returns, and it
  returns null exactly when the 1000 answers of the OS from the call on are all
  failures. The VirtualAlloc2 \<open>reserve\<close> and the plain \<open>reserve\<close> end the process through
  \<open>error\<close> with the message "Failed to allocate memory" exactly when the OS call fails,
  and what they return is never null.
\<close>

theorem reserve_failure_routes:
  "(case reserve_systematic b c n s of
      Inl e \<Rightarrow> False
    | Inr (p, s') \<Rightarrow> (p = 0 \<longleftrightarrow> (\<forall>i < 1000. script s (length (calls s) + i) = 0))) \<and>
   (case reserve_virtualalloc2 b c n align s of
      Inl (f, s') \<Rightarrow>
        f = Aborted (''Failed to allocate memory'' @ [CHR 0x0A]) \<and> script s (length (calls s)) = 0
    | Inr (p, s') \<Rightarrow> p \<noteq> 0 \<and> p = script s (length (calls s))) \<and>
   (case reserve_plain b c n s of
      Inl (f, s') \<Rightarrow>
        f = Aborted (''Failed to allocate memory'' @ [CHR 0x0A]) \<and> script s (length (calls s)) = 0
    | Inr (p, s') \<Rightarrow> p \<noteq> 0 \<and> p = script s (length (calls s)))"
proof -
  have "case reserve_systematic b c n s of
      Inl e \<Rightarrow> False
    | Inr (p, s') \<Rightarrow> (p = 0 \<longleftrightarrow> (\<forall>i < 1000. script s (length (calls s) + i) = 0))"
    using reserve_systematic_null_iff [where b = b and c = c and n = n and s = s]
      reserve_systematic_returns [where b = b and c = c and n = n and s = s]
    by (cases "reserve_systematic b c n s") auto
  then show ?thesis
    using reserve_virtualalloc2_outcome [where b = b and c = c and n = n and align = align and s = s]
      reserve_plain_outcome [where b = b and c = c and n = n and s = s]
    by (intro conjI)
qed

theorem reserve_failure_routes_witness:
  "reserve_systematic testing_build False 0x10000 (process_start always_fails)
     = Inr (0, snd (projr (reserve_systematic testing_build False 0x10000 (process_start always_fails)))) \<and>
   reserve_virtualalloc2 release_build False 0x10000 0x10000 (process_start always_fails)
     = Inl (Aborted (''Failed to allocate memory'' @ [CHR 0x0A]),
            final_state (reserve_virtualalloc2 release_build False 0x10000 0x10000
              (process_start always_fails))) \<and>
   reserve_plain legacy_build False 0x10000 (process_start always_fails)
     = Inl (Aborted (''Failed to allocate memory'' @ [CHR 0x0A]),
            final_state (reserve_plain legacy_build False 0x10000 (process_start always_fails))) \<and>
   fst (projr (reserve_plain legacy_build False 0x10000 (process_start always_succeeds))) = 0x10000"
proof -
  let ?f = "process_start always_fails"
  have z: "script ?f k = 0" for k
    by (simp add: process_start_def always_fails_def)
  note routes = reserve_failure_routes [where b = testing_build and c = False and n = "0x10000"
      and s = ?f and align = "0x10000"]
  note ext_routes = reserve_failure_routes [where b = release_build and c = False and n = "0x10000"
      and s = ?f and align = "0x10000"]
  note plain = reserve_failure_routes [where b = legacy_build and c = False and n = "0x10000"
      and s = ?f and align = "0x10000"]
  note lucky = reserve_failure_routes [where b = legacy_build and c = False and n = "0x10000"
      and s = "process_start always_succeeds" and align = "0x10000"]
  have sys: "reserve_systematic testing_build False 0x10000 ?f
     = Inr (0, snd (projr (reserve_systematic testing_build False 0x10000 ?f)))"
    using conjunct1 [OF routes] z
    by (cases "reserve_systematic testing_build False 0x10000 ?f") auto
  have ext: "reserve_virtualalloc2 release_build False 0x10000 0x10000 ?f
     = Inl (Aborted (''Failed to allocate memory'' @ [CHR 0x0A]),
            final_state (reserve_virtualalloc2 release_build False 0x10000 0x10000 ?f))"
    using conjunct1 [OF conjunct2 [OF ext_routes]] z
    by (cases "reserve_virtualalloc2 release_build False 0x10000 0x10000 ?f")
      (auto simp: final_state_def)
  have pl: "reserve_plain legacy_build False 0x10000 ?f
     = Inl (Aborted (''Failed to allocate memory'' @ [CHR 0x0A]),
            final_state (reserve_plain legacy_build False 0x10000 ?f))"
    using conjunct2 [OF conjunct2 [OF plain]] z
    by (cases "reserve_plain legacy_build False 0x10000 ?f") (auto simp: final_state_def)
  have ok: "fst (projr (reserve_plain legacy_build False 0x10000 (process_start always_succeeds)))
     = 0x10000"
    using conjunct2 [OF conjunct2 [OF lucky]]
    by (cases "reserve_plain legacy_build False 0x10000 (process_start always_succeeds)")
      (auto simp: process_start_def always_succeeds_def)
  from sys ext pl ok show ?thesis
    by (intro conjI)
qed

section \<open>Commit, decommit and zeroing\<close>

lemma VirtualFree_calls:
  "calls (snd (VirtualFree ps p n ty s)) = calls s @ [VirtualFree_call p n ty]"
  by (simp add: VirtualFree_def log_call_def decommit_pages_def Let_def)

lemma VirtualFree_status:
  "fst (VirtualFree ps p n ty s) = 0 \<longleftrightarrow> script s (length (calls s)) = 0 \<or> p = 0"
  by (simp add: VirtualFree_def next_answer_def Let_def)

lemma VirtualFree_script:
  "script (snd (VirtualFree ps p n ty s)) = script s"
  by (simp add: VirtualFree_def log_call_def decommit_pages_def Let_def)

lemma notify_not_using_unfold:
  "notify_not_using b p n s =
     (if \<not> NDEBUG b \<and> \<not> is_aligned_block (OS_PAGE_SIZE b) p n then Inl (AssertionFailed, s)
      else if script s (length (calls s)) = 0 \<or> p = 0
      then Inl (Aborted ''VirtualFree failed'', snd (VirtualFree (OS_PAGE_SIZE b) p n MEM_DECOMMIT s))
      else Inr (snd (VirtualFree (OS_PAGE_SIZE b) p n MEM_DECOMMIT s)))"
  using VirtualFree_status [of "OS_PAGE_SIZE b" p n MEM_DECOMMIT s]
  by (cases "VirtualFree (OS_PAGE_SIZE b) p n MEM_DECOMMIT s")
     (simp add: notify_not_using_def assert_that_def error_def)

lemma notify_using_unfold:
  "notify_using b zm p n s =
     (if \<not> NDEBUG b \<and> \<not> (is_aligned_block (OS_PAGE_SIZE b) p n \<or> zm = NoZero)
      then Inl (AssertionFailed, s)
      else if script s (length (calls s)) = 0
      then Inl (Aborted ''out of memory'',
                snd (VirtualAlloc (OS_PAGE_SIZE b) p n MEM_COMMIT PAGE_READWRITE s))
      else Inr (snd (VirtualAlloc (OS_PAGE_SIZE b) p n MEM_COMMIT PAGE_READWRITE s)))"
  using VirtualAlloc_result [of "OS_PAGE_SIZE b" p n MEM_COMMIT PAGE_READWRITE s]
  by (cases "VirtualAlloc (OS_PAGE_SIZE b) p n MEM_COMMIT PAGE_READWRITE s")
     (simp add: notify_using_def assert_that_def error_def)

text \<open>
  C6. The entry assertions of the two operations differ. \<open>notify_not_using\<close> ends in a
  failed assertion exactly when the build has assertions and the block is not
  page-aligned, whatever else holds. \<open>notify_using\<close> ends in a failed assertion exactly
  when the build has assertions, the block is not page-aligned and the zero policy is
  \<open>YesZero\<close>; with \<open>NoZero\<close> its assertion holds on every block, aligned or not.
\<close>

theorem commit_controller_assertions:
  "(asserts (notify_not_using b p n s)
      \<longleftrightarrow> \<not> NDEBUG b \<and> \<not> is_aligned_block (OS_PAGE_SIZE b) p n) \<and>
   (asserts (notify_using b zero_mem p n s)
      \<longleftrightarrow> \<not> NDEBUG b \<and> \<not> is_aligned_block (OS_PAGE_SIZE b) p n \<and> zero_mem = YesZero) \<and>
   \<not> asserts (notify_using b NoZero p n s)"
  by (cases zero_mem) (simp_all add: notify_not_using_unfold notify_using_unfold asserts_def)

lemma misaligned_example: "\<not> is_aligned_block (OS_PAGE_SIZE debug_build) 0x10001 1"
  by (simp add: is_aligned_block_def debug_build_def release_build_def)

lemma aligned_example: "is_aligned_block (OS_PAGE_SIZE debug_build) 0x10000 0x2000"
  by (simp add: is_aligned_block_def debug_build_def release_build_def)

theorem commit_controller_assertions_witness:
  "asserts (notify_not_using debug_build 0x10001 1 (process_start always_succeeds)) \<and>
   asserts (notify_using debug_build YesZero 0x10001 1 (process_start always_succeeds)) \<and>
   \<not> asserts (notify_using debug_build NoZero 0x10001 1 (process_start always_succeeds)) \<and>
   \<not> asserts (notify_not_using debug_build 0x10000 0x2000 (process_start always_succeeds)) \<and>
   \<not> asserts (notify_using debug_build YesZero 0x10000 0x2000 (process_start always_succeeds))"
  using commit_controller_assertions [where b = debug_build and p = "0x10001" and n = 1
      and s = "process_start always_succeeds" and zero_mem = YesZero]
    commit_controller_assertions [where b = debug_build and p = "0x10000" and n = "0x2000"
      and s = "process_start always_succeeds" and zero_mem = YesZero]
    misaligned_example aligned_example
  by (simp add: debug_build_def release_build_def)


lemma VirtualFree_decommit:
  "script s (length (calls s)) \<noteq> 0 \<Longrightarrow> p \<noteq> 0 \<Longrightarrow>
   snd (VirtualFree ps p n MEM_DECOMMIT s) =
     decommit_pages ps p n (log_call (VirtualFree_call p n MEM_DECOMMIT) s)"
  by (simp add: VirtualFree_def next_answer_def Let_def)

lemma VirtualAlloc_commit:
  "script s (length (calls s)) \<noteq> 0 \<Longrightarrow> p \<noteq> 0 \<or> n = 0 \<Longrightarrow>
   mem (snd (VirtualAlloc ps p n MEM_COMMIT PAGE_READWRITE s)) =
     (\<lambda>a. if in_pages ps p n a \<and> \<not> committed s a then 0 else mem s a)"
  by (auto simp: VirtualAlloc_def next_answer_def Let_def MEM_COMMIT_def commit_pages_def
      log_call_def in_pages_def)

lemma zero_unfold:
  "zero b hint p n s =
     (if hint \<or> is_aligned_block (OS_PAGE_SIZE b) p n then
        if \<not> NDEBUG b \<and> \<not> is_aligned_block (OS_PAGE_SIZE b) p n then Inl (AssertionFailed, s)
        else (case notify_not_using b p n s of
                Inl e \<Rightarrow> Inl e
              | Inr s1 \<Rightarrow> notify_using b YesZero p n s1)
      else memset p 0 n s)"
  by (simp add: zero_def assert_that_def)


lemma round_up_multiple:
  assumes "m mod ps = 0"
  shows "round_up ps m = m"
proof (cases "ps = 0")
  case True
  with assms show ?thesis by (simp add: round_up_def)
next
  case False
  from assms obtain q where q: "m = ps * q" by (auto simp: mod_eq_0_iff_dvd)
  have "(ps * q + ps - 1) div ps = q"
  proof -
    have "ps * q + ps - 1 = q * ps + (ps - 1)"
      using False by (cases ps) (simp_all add: algebra_simps)
    moreover have "(q * ps + (ps - 1)) div ps = q + (ps - 1) div ps"
      by (rule div_mult_self3) (use False in simp)
    moreover have "(ps - 1) div ps = 0"
      by (rule div_less) (use False in simp)
    ultimately show ?thesis by (simp only: add_0_right)
  qed
  with q show ?thesis by (simp add: round_up_def)
qed

lemma aligned_pages_are_range:
  assumes "is_aligned_block ps p n"
  shows "in_pages ps p n a = in_range p n a"
proof -
  from assms have p: "p mod ps = 0" and n: "n mod ps = 0"
    by (simp_all add: is_aligned_block_def)
  from n have "unat n mod unat ps = 0"
    by (metis unat_mod unat_0)
  then have r: "round_up (unat ps) (unat n) = unat n"
    by (rule round_up_multiple)
  have "in_pages ps p n a \<longleftrightarrow> n \<noteq> 0 \<and> unat (a - p) < unat n"
    by (simp add: in_pages_def p r)
  also have "\<dots> \<longleftrightarrow> a - p < n"
    by (auto simp: word_less_nat_alt)
  finally show ?thesis by (simp add: in_range_def)
qed


lemma VirtualAlloc_commit_committed:
  "script s (length (calls s)) \<noteq> 0 \<Longrightarrow> p \<noteq> 0 \<Longrightarrow>
   committed (snd (VirtualAlloc ps p n MEM_COMMIT PAGE_READWRITE s)) =
     (\<lambda>a. in_pages ps p n a \<or> committed s a)"
  by (auto simp: VirtualAlloc_def next_answer_def Let_def MEM_COMMIT_def commit_pages_def
      log_call_def)

lemma decommit_recommit:
  assumes "p \<noteq> 0"
    and "script s (length (calls s)) \<noteq> 0"
    and "script s (Suc (length (calls s))) \<noteq> 0"
  shows "mem (snd (VirtualAlloc ps p n MEM_COMMIT PAGE_READWRITE
                 (snd (VirtualFree ps p n MEM_DECOMMIT s)))) =
           (\<lambda>a. if in_pages ps p n a then 0 else mem s a)"
    and "committed (snd (VirtualAlloc ps p n MEM_COMMIT PAGE_READWRITE
                 (snd (VirtualFree ps p n MEM_DECOMMIT s)))) =
           (\<lambda>a. in_pages ps p n a \<or> committed s a)"
proof -
  let ?s1 = "snd (VirtualFree ps p n MEM_DECOMMIT s)"
  have s1: "?s1 = decommit_pages ps p n (log_call (VirtualFree_call p n MEM_DECOMMIT) s)"
    using assms(2,1) by (rule VirtualFree_decommit)
  have next_ok: "script ?s1 (length (calls ?s1)) \<noteq> 0"
    using assms(3) by (simp add: VirtualFree_calls VirtualFree_script)
  have c1: "committed ?s1 = (\<lambda>a. \<not> in_pages ps p n a \<and> committed s a)"
    and m1: "mem ?s1 = mem s"
    by (simp_all add: s1 decommit_pages_def log_call_def)
  show "mem (snd (VirtualAlloc ps p n MEM_COMMIT PAGE_READWRITE ?s1)) =
           (\<lambda>a. if in_pages ps p n a then 0 else mem s a)"
    using VirtualAlloc_commit [OF next_ok, of p n ps] assms(1)
    by (auto simp: c1 m1)
  show "committed (snd (VirtualAlloc ps p n MEM_COMMIT PAGE_READWRITE ?s1)) =
           (\<lambda>a. in_pages ps p n a \<or> committed s a)"
    using VirtualAlloc_commit_committed [OF next_ok assms(1), of ps n]
    by (auto simp: c1)
qed

lemma zero_page_path:
  assumes "hint \<or> is_aligned_block (OS_PAGE_SIZE b) p n"
    and "NDEBUG b \<or> is_aligned_block (OS_PAGE_SIZE b) p n"
    and "script s (length (calls s)) \<noteq> 0"
    and "script s (Suc (length (calls s))) \<noteq> 0"
    and "p \<noteq> 0"
  shows "zero b hint p n s =
           Inr (snd (VirtualAlloc (OS_PAGE_SIZE b) p n MEM_COMMIT PAGE_READWRITE
                  (snd (VirtualFree (OS_PAGE_SIZE b) p n MEM_DECOMMIT s))))"
proof -
  let ?s1 = "snd (VirtualFree (OS_PAGE_SIZE b) p n MEM_DECOMMIT s)"
  have next_ok: "script ?s1 (length (calls ?s1)) \<noteq> 0"
    using assms(4) by (simp add: VirtualFree_calls VirtualFree_script)
  have "notify_not_using b p n s = Inr ?s1"
    using assms(2,3,5) by (auto simp: notify_not_using_unfold)
  moreover have "notify_using b YesZero p n ?s1 =
      Inr (snd (VirtualAlloc (OS_PAGE_SIZE b) p n MEM_COMMIT PAGE_READWRITE ?s1))"
    using assms(2) next_ok by (auto simp: notify_using_unfold)
  ultimately show ?thesis
    using assms(1,2) by (auto simp: zero_unfold)
qed

lemma accessible_iff:
  "accessible s p n \<longleftrightarrow> (\<forall>a. in_range p n a \<longrightarrow> committed s a)"
proof
  assume acc: "accessible s p n"
  show "\<forall>a. in_range p n a \<longrightarrow> committed s a"
  proof (intro allI impI)
    fix a assume "in_range p n a"
    then have "unat (a - p) < unat n"
      by (simp add: in_range_def word_less_nat_alt)
    moreover from acc have "\<forall>i < unat n. committed s (p + of_nat i)"
      by (simp add: accessible_def list_all_iff)
    ultimately have "committed s (p + of_nat (unat (a - p)))"
      by blast
    then show "committed s a" by simp
  qed
next
  assume all: "\<forall>a. in_range p n a \<longrightarrow> committed s a"
  have "committed s (p + of_nat i)" if "i < unat n" for i
  proof -
    have "i < 2 ^ 64"
      using that unsigned_less [of n, where 'a = nat] by simp
    then have "unat (of_nat i :: size_t) = i"
      by (simp add: unat_of_nat)
    with that have "in_range p n (p + of_nat i)"
      by (simp add: in_range_def word_less_nat_alt)
    with all show ?thesis by blast
  qed
  then show "accessible s p n"
    by (simp add: accessible_def list_all_iff)
qed

lemma memset_accessible:
  "accessible s p n \<Longrightarrow>
   memset p c n s =
     Inr ((log_call (memset_call p c n) s)
            \<lparr>mem := (\<lambda>a. if in_range p n a then c else mem s a)\<rparr>)"
  by (simp add: memset_def Let_def)

lemma memset_fault:
  "\<not> accessible s p n \<Longrightarrow>
   memset p c n s = Inl (AccessViolation, log_call (memset_call p c n) s)"
  by (simp add: memset_def Let_def)

lemma memset_calls:
  "calls (end_state (memset p c n s)) = calls s @ [memset_call p c n]"
  by (simp add: memset_def end_state_def log_call_def Let_def)

text \<open>
  C1, as amended. Take a region that is page-aligned whenever the page-aligned hint is
  given. If it is page-aligned, let the decommit and the recommit that \<open>zero\<close> asks of
  the OS succeed; if it is not, let every byte of it be committed. Then \<open>zero\<close> returns,
  the bytes of the process are afterwards what the specification asks for (zero over
  exactly \<open>[p, p + n)\<close>, every other byte as before), no commit bit outside the region
  has changed, every byte of the region is committed, and where a byte-fill of the
  region would have returned it would have left the same bytes. The two paths ask
  different things of the region: the decommit/recommit path does not need it committed,
  the byte-fill path does.
\<close>

theorem zero_fills_exactly:
  assumes "hint \<longrightarrow> is_aligned_block (OS_PAGE_SIZE b) p n"
    and "is_aligned_block (OS_PAGE_SIZE b) p n \<longrightarrow>
           fst (VirtualFree (OS_PAGE_SIZE b) p n MEM_DECOMMIT s) \<noteq> 0 \<and>
           fst (VirtualAlloc (OS_PAGE_SIZE b) p n MEM_COMMIT PAGE_READWRITE
                  (snd (VirtualFree (OS_PAGE_SIZE b) p n MEM_DECOMMIT s))) \<noteq> 0"
    and "\<not> is_aligned_block (OS_PAGE_SIZE b) p n \<longrightarrow> accessible s p n"
  shows "\<exists>s'. zero b hint p n s = Inr s' \<and>
           mem s' = zero_spec p n (mem s) \<and>
           (\<forall>a. \<not> in_range p n a \<longrightarrow> committed s' a = committed s a) \<and>
           (\<forall>a. in_range p n a \<longrightarrow> committed s' a) \<and>
           (\<forall>sm. memset p 0 n s = Inr sm \<longrightarrow> mem s' = mem sm)"
proof (cases "is_aligned_block (OS_PAGE_SIZE b) p n")
  case True
  let ?s1 = "snd (VirtualFree (OS_PAGE_SIZE b) p n MEM_DECOMMIT s)"
  let ?s' = "snd (VirtualAlloc (OS_PAGE_SIZE b) p n MEM_COMMIT PAGE_READWRITE ?s1)"
  from True assms(2) have free: "fst (VirtualFree (OS_PAGE_SIZE b) p n MEM_DECOMMIT s) \<noteq> 0"
    and alloc: "fst (VirtualAlloc (OS_PAGE_SIZE b) p n MEM_COMMIT PAGE_READWRITE ?s1) \<noteq> 0"
    by simp_all
  from free have ok1: "script s (length (calls s)) \<noteq> 0" and base: "p \<noteq> 0"
    by (simp_all add: VirtualFree_status)
  from alloc have ok2: "script s (Suc (length (calls s))) \<noteq> 0"
    by (simp add: VirtualAlloc_result VirtualFree_calls VirtualFree_script)
  have z: "zero b hint p n s = Inr ?s'"
    using True ok1 ok2 base by (intro zero_page_path) simp_all
  have pages: "in_pages (OS_PAGE_SIZE b) p n a = in_range p n a" for a
    using True by (rule aligned_pages_are_range)
  have m: "mem ?s' = zero_spec p n (mem s)"
    using decommit_recommit(1) [OF base ok1 ok2, of "OS_PAGE_SIZE b" n]
    by (simp add: pages zero_spec_def)
  have c: "committed ?s' a = committed s a" if "\<not> in_range p n a" for a
    using decommit_recommit(2) [OF base ok1 ok2, of "OS_PAGE_SIZE b" n] that
    by (simp add: pages)
  have c': "committed ?s' a" if "in_range p n a" for a
    using decommit_recommit(2) [OF base ok1 ok2, of "OS_PAGE_SIZE b" n] that
    by (simp add: pages)
  have f: "mem ?s' = mem sm" if "memset p 0 n s = Inr sm" for sm
    using that m by (auto simp: memset_def Let_def zero_spec_def log_call_def split: if_splits)
  from z m c c' f show ?thesis by blast
next
  case False
  with assms(2,3) have acc: "accessible s p n" by simp
  let ?s' = "(log_call (memset_call p 0 n) s)
               \<lparr>mem := (\<lambda>a. if in_range p n a then 0 else mem s a)\<rparr>"
  from False assms(1) have "\<not> hint" by blast
  with False have z: "zero b hint p n s = Inr ?s'"
    by (simp add: zero_unfold memset_accessible [OF acc])
  have m: "mem ?s' = zero_spec p n (mem s)"
    by (simp add: zero_spec_def)
  have c: "committed ?s' = committed s"
    by (simp add: log_call_def)
  have c': "committed ?s' a" if "in_range p n a" for a
    using acc that by (simp add: c accessible_iff)
  have f: "mem ?s' = mem sm" if "memset p 0 n s = Inr sm" for sm
    using that by (simp add: memset_accessible [OF acc])
  from z m c c' f show ?thesis by simp
qed

lemma always_succeeds_free:
  "p \<noteq> 0 \<Longrightarrow> fst (VirtualFree ps p n ty (process_start always_succeeds)) \<noteq> 0"
  by (simp add: VirtualFree_status process_start_def always_succeeds_def)

lemma always_succeeds_alloc:
  "fst (VirtualAlloc ps p n ty prot (snd (VirtualFree ps' p' n' ty' (process_start always_succeeds))))
     \<noteq> 0"
  by (simp add: VirtualAlloc_result VirtualFree_script process_start_def always_succeeds_def)

text \<open>
  The process after a successful \<open>notify_not_using\<close> of the page at \<open>0x10000\<close>: the page
  is reserved and not committed.
\<close>

lemma page_decommitted:
  "notify_not_using release_build 0x10000 0x1000 (process_start always_succeeds) =
     Inr (decommit_pages 0x1000 0x10000 0x1000
            (log_call (VirtualFree_call 0x10000 0x1000 MEM_DECOMMIT) (process_start always_succeeds)))"
  by (simp add: notify_not_using_unfold VirtualFree_decommit is_aligned_block_def
      release_build_def process_start_def always_succeeds_def)

theorem zero_fills_exactly_witness:
  "mem (projr (zero debug_build False 0x10000 0x2000 (process_start always_succeeds))) 0x11FFF = 0 \<and>
   mem (projr (zero debug_build False 0x10000 0x2000 (process_start always_succeeds))) 0x12000 = 0xAA \<and>
   mem (projr (zero debug_build True 0x10000 0x2000 (process_start always_succeeds))) 0xFFFF = 0xAA \<and>
   mem (projr (zero debug_build False 0x10001 3 (process_start always_succeeds))) 0x10003 = 0 \<and>
   mem (projr (zero debug_build False 0x10001 3 (process_start always_succeeds))) 0x10004 = 0xAA \<and>
   mem (projr (zero debug_build False 0 2 (process_start always_succeeds))) 1 = 0"
proof -
  let ?s = "process_start always_succeeds"
  have al: "is_aligned_block (OS_PAGE_SIZE debug_build) 0x10000 0x2000"
    and m1: "\<not> is_aligned_block (OS_PAGE_SIZE debug_build) 0x10001 3"
    and m2: "\<not> is_aligned_block (OS_PAGE_SIZE debug_build) 0 2"
    by (simp_all add: is_aligned_block_def debug_build_def release_build_def)
  have acc: "accessible ?s p n" for p n
    by (simp add: accessible_iff process_start_def)
  have m: "mem ?s a = 0xAA" for a
    by (simp add: process_start_def)
  have os: "fst (VirtualFree (OS_PAGE_SIZE debug_build) 0x10000 0x2000 MEM_DECOMMIT ?s) \<noteq> 0 \<and>
      fst (VirtualAlloc (OS_PAGE_SIZE debug_build) 0x10000 0x2000 MEM_COMMIT PAGE_READWRITE
             (snd (VirtualFree (OS_PAGE_SIZE debug_build) 0x10000 0x2000 MEM_DECOMMIT ?s))) \<noteq> 0"
    by (simp add: always_succeeds_free always_succeeds_alloc)
  obtain s1 where s1: "zero debug_build False 0x10000 0x2000 ?s = Inr s1"
    "mem s1 = zero_spec 0x10000 0x2000 (mem ?s)"
    using zero_fills_exactly [where b = debug_build and hint = False and p = "0x10000"
        and n = "0x2000" and s = ?s] os al by blast
  obtain s2 where s2: "zero debug_build True 0x10000 0x2000 ?s = Inr s2"
    "mem s2 = zero_spec 0x10000 0x2000 (mem ?s)"
    using zero_fills_exactly [where b = debug_build and hint = True and p = "0x10000"
        and n = "0x2000" and s = ?s] os al by blast
  obtain s3 where s3: "zero debug_build False 0x10001 3 ?s = Inr s3"
    "mem s3 = zero_spec 0x10001 3 (mem ?s)"
    using zero_fills_exactly [where b = debug_build and hint = False and p = "0x10001"
        and n = 3 and s = ?s] m1 acc by blast
  obtain s4 where s4: "zero debug_build False 0 2 ?s = Inr s4"
    "mem s4 = zero_spec 0 2 (mem ?s)"
    using zero_fills_exactly [where b = debug_build and hint = False and p = 0
        and n = 2 and s = ?s] m2 acc by blast
  show ?thesis
    by (simp add: s1 s2 s3 s4 zero_spec_def in_range_def m)
qed

text \<open>
  C1 as stated fails three times. In a release build, \<open>zero\<close> with the hint on the
  one-byte region at \<open>0x10001\<close> returns and the byte at \<open>0x10000\<close>, outside the region, has
  gone from \<open>0xAA\<close> to zero: the whole page was decommitted and recommitted. When the OS
  refuses the decommit of an aligned page, \<open>zero\<close> ends the process with the first byte
  of the region still \<open>0xAA\<close>. And the two paths are not alike: after
  \<open>notify_not_using\<close> of the page at \<open>0x10000\<close>, \<open>zero\<close> of the three bytes at \<open>0x10001\<close>
  takes the byte-fill path and ends the process in an access violation with those bytes
  still \<open>0xAA\<close>, where \<open>zero\<close> of the whole page returns.
\<close>

theorem zero_hint_counterexample:
  "\<not> isl (zero release_build True 0x10001 1 (process_start always_succeeds)) \<and>
   \<not> in_range 0x10001 1 0x10000 \<and>
   mem (process_start always_succeeds) 0x10000 = 0xAA \<and>
   mem (projr (zero release_build True 0x10001 1 (process_start always_succeeds))) 0x10000 = 0 \<and>
   isl (zero release_build False 0x10000 0x1000 (process_start always_fails)) \<and>
   in_range 0x10000 0x1000 0x10000 \<and>
   mem (end_state (zero release_build False 0x10000 0x1000 (process_start always_fails))) 0x10000 = 0xAA \<and>
   zero release_build False 0x10001 3
       (projr (notify_not_using release_build 0x10000 0x1000 (process_start always_succeeds)))
     = Inl (AccessViolation,
            end_state (zero release_build False 0x10001 3
              (projr (notify_not_using release_build 0x10000 0x1000
                 (process_start always_succeeds))))) \<and>
   in_range 0x10001 3 0x10001 \<and>
   mem (end_state (zero release_build False 0x10001 3
          (projr (notify_not_using release_build 0x10000 0x1000 (process_start always_succeeds)))))
       0x10001 = 0xAA \<and>
   \<not> isl (zero release_build False 0x10000 0x1000
          (projr (notify_not_using release_build 0x10000 0x1000 (process_start always_succeeds))))"
proof -
  let ?s = "process_start always_succeeds"
  let ?f = "process_start always_fails"
  let ?d = "decommit_pages 0x1000 0x10000 0x1000
              (log_call (VirtualFree_call 0x10000 0x1000 MEM_DECOMMIT) ?s)"
  have ok: "script ?s k \<noteq> 0" for k
    by (simp add: process_start_def always_succeeds_def)
  have z: "zero release_build True 0x10001 1 ?s =
      Inr (snd (VirtualAlloc (OS_PAGE_SIZE release_build) 0x10001 1 MEM_COMMIT PAGE_READWRITE
             (snd (VirtualFree (OS_PAGE_SIZE release_build) 0x10001 1 MEM_DECOMMIT ?s))))"
    by (rule zero_page_path) (simp_all add: ok, simp add: release_build_def)
  have pg: "in_pages (OS_PAGE_SIZE release_build) 0x10001 1 0x10000"
    by (simp add: in_pages_def release_build_def round_up_def)
  have hint: "mem (projr (zero release_build True 0x10001 1 ?s)) 0x10000 = 0"
    using decommit_recommit(1) [where p = "0x10001" and s = ?s and ps = "OS_PAGE_SIZE release_build"
        and n = 1] ok pg
    by (simp add: z)
  have out: "\<not> in_range 0x10001 1 0x10000"
    by (simp add: in_range_def)
  have before: "mem ?s 0x10000 = 0xAA"
    by (simp add: process_start_def)
  have refused: "zero release_build False 0x10000 0x1000 ?f =
      Inl (Aborted ''VirtualFree failed'',
           snd (VirtualFree (OS_PAGE_SIZE release_build) 0x10000 0x1000 MEM_DECOMMIT ?f))"
    by (simp add: zero_unfold notify_not_using_unfold is_aligned_block_def release_build_def
        process_start_def always_fails_def)
  have kept: "mem (snd (VirtualFree (OS_PAGE_SIZE release_build) 0x10000 0x1000 MEM_DECOMMIT ?f))
      0x10000 = 0xAA"
    by (simp add: VirtualFree_def next_answer_def log_call_def process_start_def always_fails_def)
  have inside: "in_range 0x10000 0x1000 0x10000" "in_range 0x10001 3 0x10001"
    by (simp_all add: in_range_def)
  have d: "projr (notify_not_using release_build 0x10000 0x1000 ?s) = ?d"
    by (simp add: page_decommitted)
  have gone: "\<not> committed ?d 0x10001"
    by (simp add: decommit_pages_def log_call_def in_pages_def round_up_def)
  then have "\<not> accessible ?d 0x10001 3"
    using inside(2) by (auto simp: accessible_iff)
  then have fault: "zero release_build False 0x10001 3 ?d =
      Inl (AccessViolation, log_call (memset_call 0x10001 0 3) ?d)"
    by (simp add: zero_unfold memset_fault is_aligned_block_def release_build_def)
  have still: "mem (log_call (memset_call 0x10001 0 3) ?d) 0x10001 = 0xAA"
    by (simp add: log_call_def decommit_pages_def process_start_def)
  have "script ?d (length (calls ?d)) \<noteq> 0" "script ?d (Suc (length (calls ?d))) \<noteq> 0"
    by (simp_all add: decommit_pages_def log_call_def process_start_def always_succeeds_def)
  then have page: "\<not> isl (zero release_build False 0x10000 0x1000 ?d)"
    using zero_page_path [where b = release_build and hint = False and p = "0x10000"
        and n = "0x1000" and s = ?d]
    by (simp add: is_aligned_block_def release_build_def)
  show ?thesis
    using hint out before refused kept inside fault still page
    by (simp add: z d end_state_def)
qed

lemma notify_using_calls:
  "NDEBUG b \<Longrightarrow>
   calls (end_state (notify_using b zm p n s)) = calls s @ [VirtualAlloc_call p n MEM_COMMIT PAGE_READWRITE]"
  by (simp add: notify_using_unfold end_state_def VirtualAlloc_calls)

lemma zero_release_calls:
  assumes "NDEBUG b"
  shows "calls (end_state (zero b True p n s)) =
           calls s @ (if script s (length (calls s)) = 0 \<or> p = 0
                      then [VirtualFree_call p n MEM_DECOMMIT]
                      else [VirtualFree_call p n MEM_DECOMMIT,
                            VirtualAlloc_call p n MEM_COMMIT PAGE_READWRITE])"
proof (cases "script s (length (calls s)) = 0 \<or> p = 0")
  case True
  then show ?thesis
    using assms by (auto simp: zero_unfold notify_not_using_unfold end_state_def VirtualFree_calls)
next
  case False
  let ?s1 = "snd (VirtualFree (OS_PAGE_SIZE b) p n MEM_DECOMMIT s)"
  have "zero b True p n s = notify_using b YesZero p n ?s1"
    using assms False by (simp add: zero_unfold notify_not_using_unfold)
  then show ?thesis
    using assms False notify_using_calls [of b YesZero p n ?s1]
    by (simp add: VirtualFree_calls)
qed

text \<open>
  C8. On a block that is not page-aligned, \<open>zero\<close> with the hint never reaches \<open>memset\<close>.
  In a build without assertions its first OS call is the decommit of \<open>(p, n)\<close> as given,
  followed by the recommit if the decommit succeeded, and nothing else; in a build with
  assertions it stops at the assertion before any call. Without the hint the same block
  goes to one \<open>memset\<close>.
\<close>

theorem zero_hint_short_circuits:
  assumes "\<not> is_aligned_block (OS_PAGE_SIZE b) p n"
  shows "(NDEBUG b \<longrightarrow>
            calls (end_state (zero b True p n s)) =
              calls s @ (if script s (length (calls s)) = 0 \<or> p = 0
                         then [VirtualFree_call p n MEM_DECOMMIT]
                         else [VirtualFree_call p n MEM_DECOMMIT,
                               VirtualAlloc_call p n MEM_COMMIT PAGE_READWRITE])) \<and>
         (\<not> NDEBUG b \<longrightarrow> zero b True p n s = Inl (AssertionFailed, s)) \<and>
         zero b False p n s = memset p 0 n s \<and>
         calls (end_state (memset p 0 n s)) = calls s @ [memset_call p 0 n]"
  using assms zero_release_calls [of b p n s]
  by (simp add: zero_unfold memset_calls)

theorem zero_hint_short_circuits_witness:
  "calls (end_state (zero release_build True 0x10001 1 (process_start always_succeeds)))
     = [VirtualFree_call 0x10001 1 0x4000, VirtualAlloc_call 0x10001 1 0x1000 4] \<and>
   zero debug_build True 0x10001 1 (process_start always_succeeds)
     = Inl (AssertionFailed, process_start always_succeeds) \<and>
   calls (end_state (zero release_build False 0x10001 1 (process_start always_succeeds)))
     = [memset_call 0x10001 0 1]"
proof -
  let ?s = "process_start always_succeeds"
  have r: "\<not> is_aligned_block (OS_PAGE_SIZE release_build) 0x10001 1"
    and d: "\<not> is_aligned_block (OS_PAGE_SIZE debug_build) 0x10001 1"
    by (simp_all add: is_aligned_block_def debug_build_def release_build_def)
  note rel = zero_hint_short_circuits [OF r, of ?s]
  note dbg = zero_hint_short_circuits [OF d, of ?s]
  have "calls (end_state (zero release_build True 0x10001 1 ?s))
     = [VirtualFree_call 0x10001 1 0x4000, VirtualAlloc_call 0x10001 1 0x1000 4]"
    using conjunct1 [OF rel]
    by (simp add: release_build_def process_start_def always_succeeds_def MEM_DECOMMIT_def
        MEM_COMMIT_def PAGE_READWRITE_def)
  moreover have "zero debug_build True 0x10001 1 ?s = Inl (AssertionFailed, ?s)"
    using conjunct1 [OF conjunct2 [OF dbg]]
    by (simp add: debug_build_def release_build_def)
  moreover have "calls (end_state (zero release_build False 0x10001 1 ?s)) = [memset_call 0x10001 0 1]"
    using conjunct2 [OF conjunct2 [OF rel]]
    by (simp add: end_state_def process_start_def)
  ultimately show ?thesis
    by (intro conjI)
qed

section \<open>Low-memory notification\<close>

subsection \<open>The synchronous query\<close>

lemma expensive_low_memory_check_unfold:
  "expensive_low_memory_check uninit s =
     ((case query_out s (length (calls s)) of None \<Rightarrow> uninit | Some v \<Rightarrow> v) \<noteq> 0,
      log_call (QueryMemoryResourceNotification_call (lowMemoryObject s)) s)"
  by (simp add: expensive_low_memory_check_def QueryMemoryResourceNotification_def)

text \<open>
  C10. \<open>expensive_low_memory_check\<close> always returns a boolean: the value the query stored
  through its output parameter, or, when the query stored nothing, whatever the
  uninitialised local \<open>result\<close> held. The status of the query plays no part: replacing
  the script of OS answers by any other leaves the returned value as it is. When nothing
  was stored the returned value follows the stack garbage, false for 0 and true for 1.
\<close>

theorem expensive_low_memory_check_ignores_status:
  "fst (expensive_low_memory_check uninit s) =
     ((case query_out s (length (calls s)) of None \<Rightarrow> uninit | Some v \<Rightarrow> v) \<noteq> 0) \<and>
   fst (expensive_low_memory_check uninit (s\<lparr>script := answers\<rparr>)) =
     fst (expensive_low_memory_check uninit s) \<and>
   (query_out s (length (calls s)) = None \<longrightarrow>
      fst (expensive_low_memory_check 0 s) = False \<and>
      fst (expensive_low_memory_check 1 s) = True) \<and>
   calls (snd (expensive_low_memory_check uninit s)) =
     calls s @ [QueryMemoryResourceNotification_call (lowMemoryObject s)]"
  by (simp add: expensive_low_memory_check_unfold log_call_def)

theorem expensive_low_memory_check_ignores_status_witness:
  "fst (QueryMemoryResourceNotification (lowMemoryObject (process_start always_fails))
         (process_start always_fails)) = (0, None) \<and>
   fst (expensive_low_memory_check 0 (process_start always_fails)) = False \<and>
   fst (expensive_low_memory_check 1 (process_start always_fails)) = True \<and>
   calls (snd (expensive_low_memory_check 1 (process_start always_fails)))
     = [QueryMemoryResourceNotification_call 0]"
  using expensive_low_memory_check_ignores_status [of 1 "process_start always_fails" always_fails]
  by (simp add: process_start_def always_fails_def QueryMemoryResourceNotification_def
      next_answer_def)

subsection \<open>Exactly one subscription\<close>

lemma count_list_update:
  "t < length xs \<Longrightarrow>
   count_list (xs[t := x]) y + (if xs ! t = y then 1 else 0) =
     count_list xs y + (if x = y then 1 else 0)"
proof (induction xs arbitrary: t)
  case Nil
  then show ?case by simp
next
  case (Cons a xs)
  show ?case
  proof (cases t)
    case 0
    then show ?thesis by simp
  next
    case (Suc u)
    with Cons.prems have "u < length xs" by simp
    from Cons.IH [OF this] Suc show ?thesis by (auto split: if_splits)
  qed
qed

lemma creations_append:
  "creations (cs @ [c]) = creations cs + (if c = CreateMemoryResourceNotification_call then 1 else 0)"
  by (simp add: creations_def)

lemma wait_bindings_append:
  "wait_bindings (cs @ [c]) = wait_bindings cs + (if is_register_wait c then 1 else 0)"
  by (simp add: wait_bindings_def)

lemma count_all_nth:
  "count_list xs y = length xs \<Longrightarrow> t < length xs \<Longrightarrow> xs ! t = y"
proof (induction xs arbitrary: t)
  case Nil then show ?case by simp
next
  case (Cons a xs)
  have le: "count_list xs y \<le> length xs" by (rule count_le_length)
  from Cons.prems(1) le have a: "a = y" and rest: "count_list xs y = length xs"
    by (auto split: if_splits)
  show ?case
  proof (cases t)
    case 0 with a show ?thesis by simp
  next
    case (Suc u)
    with Cons.prems(2) have "u < length xs" by simp
    from Cons.IH [OF rest this] Suc show ?thesis by simp
  qed
qed

lemma thread_step_inv:
  assumes "subscription_inv c0 w0 cfg"
  shows "subscription_inv c0 w0 (thread_step t cfg)"
proof (cases cfg)
  case (Pair pcs s)
  show ?thesis
  proof (cases "t < length pcs")
    case False
    with assms Pair show ?thesis by (simp add: thread_step_def)
  next
    case True
    note upd = count_list_update [OF True]
    from assms Pair have inv:
      "creations (calls s) + count_list pcs at_create
         = c0 + (if registered_for_notifications s then 1 else 0)"
      "wait_bindings (calls s) + count_list pcs at_create + count_list pcs at_register
         = w0 + (if registered_for_notifications s then 1 else 0)"
      "registered_for_notifications s \<or> count_list pcs at_exchange = length pcs"
      by (simp_all add: subscription_inv_def Let_def)
    show ?thesis
    proof (cases "pcs ! t")
      case at_exchange
      show ?thesis
      proof (cases "registered_for_notifications s")
        case True
        then show ?thesis
          using inv Pair \<open>t < length pcs\<close> at_exchange
            upd [of returned at_create] upd [of returned at_register]
          by (simp add: thread_step_def subscription_inv_def exchange_registered_def Let_def)
      next
        case False
        then show ?thesis
          using inv Pair \<open>t < length pcs\<close> at_exchange
            upd [of at_create at_create] upd [of at_create at_register]
          by (simp add: thread_step_def subscription_inv_def exchange_registered_def Let_def)
      qed
    next
      case at_create
      have reg: "registered_for_notifications s"
        using inv(3) count_all_nth [of pcs at_exchange t] True at_create by auto
      show ?thesis
        using inv Pair True at_create reg
          upd [of at_register at_create] upd [of at_register at_register]
        by (simp add: thread_step_def subscription_inv_def Let_def
            CreateMemoryResourceNotification_def log_call_def creations_append wait_bindings_append)
    next
      case at_register
      have reg: "registered_for_notifications s"
        using inv(3) count_all_nth [of pcs at_exchange t] True at_register by auto
      show ?thesis
        using inv Pair True at_register reg
          upd [of returned at_create] upd [of returned at_register]
        by (simp add: thread_step_def subscription_inv_def Let_def
            RegisterWaitForSingleObject_def log_call_def creations_append wait_bindings_append)
    next
      case returned
      have "pcs[t := returned] = pcs"
        using returned by (metis list_update_id)
      then show ?thesis
        using assms Pair True returned by (simp add: thread_step_def)
    qed
  qed
qed

lemma run_schedule_inv:
  "subscription_inv c0 w0 cfg \<Longrightarrow> subscription_inv c0 w0 (run_schedule sched cfg)"
  by (induction sched arbitrary: cfg) (simp_all add: thread_step_inv)


lemma count_list_replicate:
  "count_list (replicate n x) y = (if x = y then n else 0)"
  by (induction n) auto

lemma subscription_inv_start:
  "\<not> registered_for_notifications s \<Longrightarrow>
   subscription_inv (creations (calls s)) (wait_bindings (calls s)) (replicate N at_exchange, s)"
  by (simp add: subscription_inv_def count_list_replicate)

lemma PALWindows_unregistered:
  "\<not> registered_for_notifications s \<Longrightarrow>
   PALWindows s =
     s\<lparr>registered_for_notifications := True,
       calls := calls s @ [CreateMemoryResourceNotification_call,
                  RegisterWaitForSingleObject_call (script s (length (calls s)))],
       lowMemoryObject := script s (length (calls s))\<rparr>"
  by (simp add: PALWindows_def exchange_registered_def CreateMemoryResourceNotification_def
      RegisterWaitForSingleObject_def log_call_def next_answer_def)

lemma PALWindows_registered:
  "registered_for_notifications s \<Longrightarrow> PALWindows s = s"
  by (simp add: PALWindows_def exchange_registered_def)

text \<open>One construction running alone: its three steps are the constructor.\<close>

lemma PALWindows_steps:
  "run_schedule [0, 0, 0] ([at_exchange], s) = ([returned], PALWindows s)"
  by (simp add: thread_step_def PALWindows_def exchange_registered_def
      CreateMemoryResourceNotification_def Let_def split: prod.splits)

lemma all_returned_counts:
  assumes "pcs = replicate N returned"
  shows "count_list pcs at_create = 0" "count_list pcs at_register = 0"
    "0 < N \<Longrightarrow> count_list pcs at_exchange \<noteq> length pcs"
  using assms by (simp_all add: count_list_replicate)

text \<open>
  C2. Let \<open>N\<close> constructions start in a process whose flag is not set, and let them
  run interleaved in any order, each as its three atomic steps. At every moment the log
  holds at most one \<open>CreateMemoryResourceNotification\<close> and at most one
  \<open>RegisterWaitForSingleObject\<close> more than at the start, and once all constructions
  have returned (and there was at least one) it holds exactly one more of each. A
  construction that finds the flag unset makes exactly these two calls; a construction
  that finds the flag set makes no call at all.
\<close>

theorem subscription_exactly_once:
  assumes "\<not> registered_for_notifications s0"
    and "concurrent_constructions N sched s0 = (pcs, s)"
  shows "creations (calls s) \<le> creations (calls s0) + 1 \<and>
         wait_bindings (calls s) \<le> wait_bindings (calls s0) + 1 \<and>
         (0 < N \<and> pcs = replicate N returned \<longrightarrow>
            creations (calls s) = creations (calls s0) + 1 \<and>
            wait_bindings (calls s) = wait_bindings (calls s0) + 1) \<and>
         calls (PALWindows s0) =
           calls s0 @ [CreateMemoryResourceNotification_call,
                       RegisterWaitForSingleObject_call (script s0 (length (calls s0)))] \<and>
         (registered_for_notifications s \<longrightarrow> calls (PALWindows s) = calls s)"
proof -
  have "subscription_inv (creations (calls s0)) (wait_bindings (calls s0)) (pcs, s)"
    using run_schedule_inv [OF subscription_inv_start [OF assms(1)], where N1 = N and sched = sched]
      assms(2)
    by (simp add: concurrent_constructions_def)
  then have inv:
    "creations (calls s) + count_list pcs at_create
       = creations (calls s0) + (if registered_for_notifications s then 1 else 0)"
    "wait_bindings (calls s) + count_list pcs at_create + count_list pcs at_register
       = wait_bindings (calls s0) + (if registered_for_notifications s then 1 else 0)"
    "registered_for_notifications s \<or> count_list pcs at_exchange = length pcs"
    by (simp_all add: subscription_inv_def Let_def)
  have le: "creations (calls s) \<le> creations (calls s0) + 1"
    "wait_bindings (calls s) \<le> wait_bindings (calls s0) + 1"
    using inv(1,2) by (simp_all split: if_splits)
  have fin: "creations (calls s) = creations (calls s0) + 1 \<and>
              wait_bindings (calls s) = wait_bindings (calls s0) + 1"
    if "0 < N" "pcs = replicate N returned"
    using inv all_returned_counts [OF that(2)] that(1) by simp
  show ?thesis
    using le fin PALWindows_unregistered [OF assms(1)] PALWindows_registered [of s]
    by simp
qed

theorem subscription_exactly_once_witness:
  "fst (concurrent_constructions 3 [0, 1, 2, 1, 0, 2, 0, 1, 2] (process_start always_succeeds))
     = replicate 3 returned \<and>
   creations (calls (snd (concurrent_constructions 3 [0, 1, 2, 1, 0, 2, 0, 1, 2]
     (process_start always_succeeds)))) = 1 \<and>
   wait_bindings (calls (snd (concurrent_constructions 3 [0, 1, 2, 1, 0, 2, 0, 1, 2]
     (process_start always_succeeds)))) = 1 \<and>
   registered_for_notifications (snd (concurrent_constructions 3 [0, 1, 2, 1, 0, 2, 0, 1, 2]
     (process_start always_succeeds)))"
proof -
  let ?s0 = "process_start always_succeeds"
  let ?c = "concurrent_constructions 3 [0, 1, 2, 1, 0, 2, 0, 1, 2] ?s0"
  have start: "\<not> registered_for_notifications ?s0"
    and empty: "calls ?s0 = []"
    by (simp_all add: process_start_def)
  have pcs: "fst ?c = replicate 3 returned"
    and reg: "registered_for_notifications (snd ?c)"
    by (simp_all add: concurrent_constructions_def thread_step_def exchange_registered_def
       CreateMemoryResourceNotification_def RegisterWaitForSingleObject_def log_call_def
       next_answer_def process_start_def always_succeeds_def numeral_3_eq_3)
  have run: "?c = (fst ?c, snd ?c)"
    by simp
  from subscription_exactly_once [OF start run] pcs
  have "creations (calls (snd ?c)) = creations (calls ?s0) + 1"
    and "wait_bindings (calls (snd ?c)) = wait_bindings (calls ?s0) + 1"
    by simp_all
  then have "creations (calls (snd ?c)) = 1" and "wait_bindings (calls (snd ?c)) = 1"
    by (simp_all add: empty creations_def wait_bindings_def)
  with pcs reg show ?thesis
    by (intro conjI)
qed

subsection \<open>The flag is never cleared\<close>

lemma keeps_refl: "keeps_subscription s s"
  by (simp add: keeps_subscription_def)

lemma keeps_trans:
  "keeps_subscription s s1 \<Longrightarrow> keeps_subscription s1 s2 \<Longrightarrow> keeps_subscription s s2"
  by (simp add: keeps_subscription_def)

lemma keeps_VirtualFree: "keeps_subscription s (snd (VirtualFree ps p n ty s))"
  by (simp add: keeps_subscription_def VirtualFree_def log_call_def decommit_pages_def Let_def
      creations_append wait_bindings_append)

lemma keeps_VirtualAlloc: "keeps_subscription s (snd (VirtualAlloc ps p n ty prot s))"
  by (simp add: keeps_subscription_def VirtualAlloc_def log_call_def commit_pages_def Let_def
      creations_append wait_bindings_append)

lemma keeps_VirtualAlloc2FromApp:
  "keeps_subscription s (snd (VirtualAlloc2FromApp ps h p n ty prot reqs cnt s))"
  by (simp add: keeps_subscription_def VirtualAlloc2FromApp_def log_call_def commit_pages_def Let_def
      creations_append wait_bindings_append)

lemma keeps_memset: "keeps_subscription s (end_state (memset p c n s))"
  by (simp add: keeps_subscription_def memset_def end_state_def log_call_def Let_def
      creations_append wait_bindings_append)

lemma keeps_check: "keeps_subscription s (snd (expensive_low_memory_check uninit s))"
  by (simp add: keeps_subscription_def expensive_low_memory_check_unfold log_call_def
      creations_append wait_bindings_append)

lemma keeps_register: "keeps_subscription s (register_for_low_memory_callback callback s)"
  by (simp add: keeps_subscription_def register_for_low_memory_callback_def register_notification_def)

lemma keeps_low_memory: "keeps_subscription s (low_memory s)"
  by (simp add: keeps_subscription_def low_memory_def notify_all_def)

lemma keeps_bump: "keeps_subscription s (s\<lparr>bump_ptr := v\<rparr>)"
  by (simp add: keeps_subscription_def)

lemma keeps_notify_not_using: "keeps_subscription s (end_state (notify_not_using b p n s))"
  by (simp add: notify_not_using_unfold end_state_def keeps_refl keeps_VirtualFree)

lemma keeps_notify_using: "keeps_subscription s (end_state (notify_using b zm p n s))"
  by (simp add: notify_using_unfold end_state_def keeps_refl keeps_VirtualAlloc)

lemma keeps_zero: "keeps_subscription s (end_state (zero b hint p n s))"
proof (cases "hint \<or> is_aligned_block (OS_PAGE_SIZE b) p n")
  case False
  then show ?thesis
    by (simp add: zero_unfold keeps_memset)
next
  case True
  show ?thesis
  proof (cases "notify_not_using b p n s")
    case (Inl e)
    with keeps_notify_not_using [of s b p n] True show ?thesis
      by (auto simp: zero_unfold end_state_def keeps_refl)
  next
    case (Inr s1)
    with keeps_notify_not_using [of s b p n] have "keeps_subscription s s1"
      by (simp add: end_state_def)
    from keeps_trans [OF this keeps_notify_using [of s1 b YesZero p n]] Inr True show ?thesis
      by (auto simp: zero_unfold end_state_def keeps_refl)
  qed
qed

lemma keeps_reserve_loop: "keeps_subscription s (snd (reserve_loop b n flags retries s))"
proof (induction b n flags retries s rule: reserve_loop.induct)
  case (1 b n flags retries s)
  let ?va = "VirtualAlloc (OS_PAGE_SIZE b) (bump_ptr s) n flags PAGE_READWRITE s"
  let ?s2 = "(snd ?va)\<lparr>bump_ptr := bump_ptr (snd ?va) + n\<rparr>"
  have step: "keeps_subscription s ?s2"
    by (rule keeps_trans [OF keeps_VirtualAlloc keeps_bump])
  show ?case
  proof (cases "fst ?va = 0 \<and> retries - 1 > 0")
    case False
    then have "reserve_loop b n flags retries s = (fst ?va, ?s2)"
      by (subst reserve_loop.simps) (auto simp: Let_def split: prod.splits)
    with step show ?thesis by simp
  next
    case True
    then have eq: "reserve_loop b n flags retries s = reserve_loop b n flags (retries - 1) ?s2"
      by (subst reserve_loop.simps) (auto simp: Let_def split: prod.splits)
    have "keeps_subscription ?s2 (snd (reserve_loop b n flags (retries - 1) ?s2))"
      using True "1.IH" [OF prod.collapse refl refl] by simp
    with step show ?thesis
      by (simp only: eq) (rule keeps_trans)
  qed
qed

lemma keeps_reserve_systematic:
  "keeps_subscription s (final_state (reserve_systematic b c n s))"
  by (simp add: reserve_systematic_def final_state_def keeps_reserve_loop split: prod.splits)
     (metis keeps_reserve_loop snd_conv)

lemma keeps_reserve_virtualalloc2:
  "keeps_subscription s (final_state (reserve_virtualalloc2 b c n align s))"
  by (simp only: reserve_virtualalloc2_final_state keeps_VirtualAlloc2FromApp)

lemma reserve_plain_final_state:
  "final_state (reserve_plain b c n s) =
     snd (VirtualAlloc (OS_PAGE_SIZE b) 0 n (reserve_flags c) PAGE_READWRITE s)"
  by (simp add: reserve_plain_unfold final_state_def error_def Let_def split: prod.splits)

lemma keeps_reserve_plain:
  "keeps_subscription s (final_state (reserve_plain b c n s))"
  by (simp only: reserve_plain_final_state keeps_VirtualAlloc)

lemma end_state_drop_result: "end_state (drop_result r) = final_state r"
  by (cases r) (auto simp: end_state_def drop_result_def final_state_def)

lemma keeps_perform:
  "registered_for_notifications s \<Longrightarrow> keeps_subscription s (end_state (perform b op s))"
proof (cases op)
  case Construct
  assume "registered_for_notifications s"
  with Construct show ?thesis
    by (simp add: PALWindows_registered end_state_def keeps_refl)
next
  case (Reserve c n align)
  show ?thesis
    by (cases "reservation_strategy b")
       (simp_all add: Reserve end_state_drop_result keeps_reserve_systematic
          keeps_reserve_virtualalloc2 keeps_reserve_plain)
qed (simp_all add: end_state_def keeps_check keeps_register keeps_low_memory
       keeps_notify_not_using [unfolded end_state_def] keeps_notify_using [unfolded end_state_def]
       keeps_zero [unfolded end_state_def])

lemma keeps_run_ops:
  "registered_for_notifications s \<Longrightarrow> keeps_subscription s (end_state (run_ops b ops s))"
proof (induction ops arbitrary: s)
  case Nil
  then show ?case by (simp add: end_state_def keeps_refl)
next
  case (Cons op ops)
  note first = keeps_perform [OF Cons.prems, of b op]
  show ?case
  proof (cases "perform b op s")
    case (Inl e)
    with first show ?thesis by simp
  next
    case (Inr s1)
    with first have k: "keeps_subscription s s1" by (simp add: end_state_def)
    with Cons.prems have "registered_for_notifications s1"
      by (simp add: keeps_subscription_def)
    from keeps_trans [OF k Cons.IH [OF this]] Inr show ?thesis by simp
  qed
qed


lemma past_exchange_registered:
  assumes "\<not> registered_for_notifications s0"
    and "t < length (fst (concurrent_constructions N sched s0))"
    and "fst (concurrent_constructions N sched s0) ! t \<noteq> at_exchange"
  shows "registered_for_notifications (snd (concurrent_constructions N sched s0))"
proof -
  let ?c = "concurrent_constructions N sched s0"
  have "subscription_inv (creations (calls s0)) (wait_bindings (calls s0)) (fst ?c, snd ?c)"
    using run_schedule_inv [OF subscription_inv_start [OF assms(1)], where N1 = N and sched = sched]
    by (simp add: concurrent_constructions_def)
  then have "registered_for_notifications (snd ?c) \<or>
      count_list (fst ?c) at_exchange = length (fst ?c)"
    by (simp add: subscription_inv_def Let_def split: prod.splits)
  with count_all_nth [of "fst ?c" at_exchange t] assms(2,3) show ?thesis
    by blast
qed

text \<open>
  C9. A construction leaves the flag set, whatever the OS answers. Its exchange step
  sets the flag and makes no call; the OS calls come in the steps after it, so in every
  interleaving a construction that is past its exchange sees the flag set. Once the
  flag is set, a construction changes nothing, and no sequence of member-function calls
  (constructions among them) clears the flag or adds a subscription call to the log:
  a subscription that failed is never tried again.
\<close>

theorem registration_is_permanent:
  "registered_for_notifications (PALWindows s) \<and>
   ctor_step at_exchange s =
     (if registered_for_notifications s then returned else at_create,
      s\<lparr>registered_for_notifications := True\<rparr>) \<and>
   (registered_for_notifications s \<longrightarrow>
      PALWindows s = s \<and>
      registered_for_notifications (end_state (run_ops b ops s)) \<and>
      creations (calls (end_state (run_ops b ops s))) = creations (calls s) \<and>
      wait_bindings (calls (end_state (run_ops b ops s))) = wait_bindings (calls s)) \<and>
   (\<not> registered_for_notifications s0 \<and>
    t < length (fst (concurrent_constructions N sched s0)) \<and>
    fst (concurrent_constructions N sched s0) ! t \<noteq> at_exchange \<longrightarrow>
      registered_for_notifications (snd (concurrent_constructions N sched s0)))"
proof -
  have "registered_for_notifications (PALWindows s)"
    by (cases "registered_for_notifications s")
       (simp_all add: PALWindows_registered PALWindows_unregistered)
  moreover have "ctor_step at_exchange s =
     (if registered_for_notifications s then returned else at_create,
      s\<lparr>registered_for_notifications := True\<rparr>)"
    by (simp add: exchange_registered_def)
  moreover have "PALWindows s = s \<and>
      registered_for_notifications (end_state (run_ops b ops s)) \<and>
      creations (calls (end_state (run_ops b ops s))) = creations (calls s) \<and>
      wait_bindings (calls (end_state (run_ops b ops s))) = wait_bindings (calls s)"
    if "registered_for_notifications s"
    using keeps_run_ops [OF that, of b ops] PALWindows_registered [OF that] that
    by (simp add: keeps_subscription_def)
  ultimately show ?thesis
    using past_exchange_registered [of s0 t N sched] by blast
qed

theorem registration_is_permanent_witness:
  "lowMemoryObject (PALWindows (process_start always_fails)) = 0 \<and>
   calls (PALWindows (process_start always_fails))
     = [CreateMemoryResourceNotification_call, RegisterWaitForSingleObject_call 0] \<and>
   registered_for_notifications (end_state (run_ops release_build
     [Construct, Check 0, Construct, Zero False 0x10001 2, Construct]
     (PALWindows (process_start always_fails)))) \<and>
   creations (calls (end_state (run_ops release_build
     [Construct, Check 0, Construct, Zero False 0x10001 2, Construct]
     (PALWindows (process_start always_fails))))) = 1 \<and>
   wait_bindings (calls (end_state (run_ops release_build
     [Construct, Check 0, Construct, Zero False 0x10001 2, Construct]
     (PALWindows (process_start always_fails))))) = 1 \<and>
   fst (concurrent_constructions 2 [0] (process_start always_fails)) = [at_create, at_exchange] \<and>
   calls (snd (concurrent_constructions 2 [0] (process_start always_fails))) = [] \<and>
   registered_for_notifications (snd (concurrent_constructions 2 [0] (process_start always_fails)))"
proof -
  let ?s = "PALWindows (process_start always_fails)"
  let ?c = "concurrent_constructions 2 [0] (process_start always_fails)"
  have pcs: "fst ?c = [at_create, at_exchange]" and nocall: "calls (snd ?c) = []"
    by (simp_all add: concurrent_constructions_def thread_step_def exchange_registered_def
        process_start_def numeral_2_eq_2)
  have "\<not> registered_for_notifications (process_start always_fails)"
    by (simp add: process_start_def)
  with registration_is_permanent [where s0 = "process_start always_fails" and N = 2
      and sched = "[0]" and t = 0 and s = ?s and b = release_build and ops = "[]"] pcs
  have early: "registered_for_notifications (snd ?c)"
    by simp
  let ?ops = "[Construct, Check 0, Construct, Zero False 0x10001 2, Construct]"
  have first: "?s = (process_start always_fails)
      \<lparr>registered_for_notifications := True,
        calls := [CreateMemoryResourceNotification_call, RegisterWaitForSingleObject_call 0],
        lowMemoryObject := 0\<rparr>"
    by (simp add: PALWindows_unregistered process_start_def always_fails_def)
  have reg: "registered_for_notifications ?s"
    by (simp add: first)
  note perm = registration_is_permanent [where s = ?s and b = release_build and ops = ?ops]
  from perm reg
  have r: "registered_for_notifications (end_state (run_ops release_build ?ops ?s))"
    and c: "creations (calls (end_state (run_ops release_build ?ops ?s))) = creations (calls ?s)"
    and w: "wait_bindings (calls (end_state (run_ops release_build ?ops ?s))) = wait_bindings (calls ?s)"
    by blast+
  have c1: "creations (calls ?s) = 1" and w1: "wait_bindings (calls ?s) = 1"
    by (simp_all add: first creations_def wait_bindings_def)
  have h: "lowMemoryObject ?s = 0"
    and l: "calls ?s = [CreateMemoryResourceNotification_call, RegisterWaitForSingleObject_call 0]"
    by (simp_all add: first)
  from h l r c [unfolded c1] w [unfolded w1] pcs nocall early show ?thesis
    by (intro conjI)
qed

end
